theory Spec2Isabelle
  imports Main "HOL-Library.Word"
begin

section \<open>JavaScript strings\<close>

text \<open>
  A JavaScript string is a sequence of UTF-16 code units. ASCII literals of the source are
  written through \<open>u16\<close>; the Japanese keys of the phrase table are written as their code
  units (all of them lie in the Basic Multilingual Plane, one unit per character).
\<close>

type_synonym jsstring = "16 word list"

definition u16 :: "string \<Rightarrow> jsstring" where
  "u16 s = map of_char s"

text \<open>
  \<open>String.prototype.trim\<close> removes the WhiteSpace and LineTerminator code points of
  ECMAScript from both ends: TAB, LF, VT, FF, CR, SPACE, NBSP, U+1680, U+2000 to U+200A,
  U+2028, U+2029, U+202F, U+205F, U+3000 and U+FEFF.
\<close>

definition is_ws :: "16 word \<Rightarrow> bool" where
  "is_ws c \<longleftrightarrow>
     c \<in> set [0x09, 0x0A, 0x0B, 0x0C, 0x0D, 0x20, 0xA0, 0x1680, 0x2028, 0x2029,
               0x202F, 0x205F, 0x3000, 0xFEFF]
     \<or> (0x2000 \<le> c \<and> c \<le> 0x200A)"

definition trim :: "jsstring \<Rightarrow> jsstring" where
  "trim s = rev (dropWhile is_ws (rev (dropWhile is_ws s)))"

text \<open>
  \<open>toLowerCase\<close> and \<open>toUpperCase\<close> follow the Unicode case tables of the runtime, which are
  not part of the repository. On a string of ASCII code units they map \<open>A..Z\<close> to \<open>a..z\<close>
  (respectively back) and leave every other unit alone; on any other string the result is
  whatever the runtime's table says, supplied by the environment record below.
\<close>

definition is_ascii :: "16 word \<Rightarrow> bool" where
  "is_ascii c \<longleftrightarrow> c < 0x80"

definition ascii_lower :: "16 word \<Rightarrow> 16 word" where
  "ascii_lower c = (if 0x41 \<le> c \<and> c \<le> 0x5A then c + 0x20 else c)"

definition ascii_upper :: "16 word \<Rightarrow> 16 word" where
  "ascii_upper c = (if 0x61 \<le> c \<and> c \<le> 0x7A then c - 0x20 else c)"

text \<open>\<open>s.split(sep)\<close> for a one-unit separator: never empty, \<open>''.split(',')\<close> is \<open>['']\<close>.\<close>

fun split :: "16 word \<Rightarrow> jsstring \<Rightarrow> jsstring list" where
  "split sep [] = [ [] ]"
| "split sep (c # cs) =
     (if c = sep then [] # split sep cs
      else (case split sep cs of [] \<Rightarrow> [ [c] ] | w # ws \<Rightarrow> (c # w) # ws))"

text \<open>\<open>s.includes(sub)\<close>: \<open>sub\<close> occurs in \<open>s\<close> as a contiguous run.\<close>

fun starts_with :: "jsstring \<Rightarrow> jsstring \<Rightarrow> bool" where
  "starts_with s [] = True"
| "starts_with [] (c # cs) = False"
| "starts_with (x # xs) (c # cs) = (x = c \<and> starts_with xs cs)"

fun includes_js :: "jsstring \<Rightarrow> jsstring \<Rightarrow> bool" where
  "includes_js [] sub = (sub = [])"
| "includes_js (x # xs) sub = (starts_with (x # xs) sub \<or> includes_js xs sub)"

text \<open>\<open>xs.join(sep)\<close> on strings.\<close>

fun join :: "jsstring \<Rightarrow> jsstring list \<Rightarrow> jsstring" where
  "join sep [] = []"
| "join sep [x] = x"
| "join sep (x # y # ys) = x @ sep @ join sep (y # ys)"

section \<open>JSON values\<close>

text \<open>
  What \<open>res.json()\<close> yields. A number is kept as its canonical \<open>ToString\<close> rendering
  (\<open>0\<close> for both zeros), which is all this program observes of it: whether it is zero, and
  its text inside \<open>join\<close>. An object is the list of its own properties, keys distinct.
  \<open>undefined\<close>, which JSON cannot contain, is \<open>None\<close> of \<open>json option\<close>.
\<close>

datatype json =
    JNull
  | JBool bool
  | JNum jsstring
  | JStr jsstring
  | JArr "json list"
  | JObj "(jsstring \<times> json) list"

text \<open>\<open>Boolean(v)\<close>, the test behind \<open>||\<close> and \<open>filter(Boolean)\<close>.\<close>

fun truthy :: "json \<Rightarrow> bool" where
  "truthy JNull = False"
| "truthy (JBool b) = b"
| "truthy (JNum n) = (n \<noteq> u16 ''0'')"
| "truthy (JStr s) = (s \<noteq> [])"
| "truthy (JArr xs) = True"
| "truthy (JObj kvs) = True"

definition truthy_opt :: "json option \<Rightarrow> bool" where
  "truthy_opt v = (case v of None \<Rightarrow> False | Some x \<Rightarrow> truthy x)"

text \<open>
  \<open>v?.name\<close> for the property names the adapters read (\<open>translations\<close>, \<open>text\<close>,
  \<open>translatedText\<close>): only an object can own them, no built-in prototype has them.
  \<open>v?.[0]\<close>: the first element of an array, the first unit of a string, property \<open>0\<close> of an
  object. Both give \<open>undefined\<close> on \<open>null\<close> and \<open>undefined\<close>.
\<close>

fun field :: "jsstring \<Rightarrow> json option \<Rightarrow> json option" where
  "field k (Some (JObj kvs)) = map_of kvs k"
| "field k v = None"

fun index0 :: "json option \<Rightarrow> json option" where
  "index0 (Some (JArr xs)) = (case xs of [] \<Rightarrow> None | x # _ \<Rightarrow> Some x)"
| "index0 (Some (JStr s)) = (case s of [] \<Rightarrow> None | c # _ \<Rightarrow> Some (JStr [c]))"
| "index0 (Some (JObj kvs)) = map_of kvs (u16 ''0'')"
| "index0 v = None"

text \<open>
  \<open>ToString\<close> of a parsed value, \<open>None\<close> when it throws a \<open>TypeError\<close>. An array is its
  elements joined with commas, \<open>null\<close> elements giving the empty string. An object is
  \<open>[object Object]\<close> through \<open>Object.prototype.toString\<close>, unless it owns a property
  \<open>toString\<close>: a parsed value is never callable, so that property hides the inherited
  method, \<open>valueOf\<close> gives no primitive either, and the conversion throws.
  \<open>xs.join(sep)\<close> converts each element in this way, \<open>null\<close> to the empty string, and throws
  when one conversion throws.
\<close>

fun to_string :: "json \<Rightarrow> jsstring option" where
  "to_string JNull = Some (u16 ''null'')"
| "to_string (JBool b) = Some (if b then u16 ''true'' else u16 ''false'')"
| "to_string (JNum n) = Some n"
| "to_string (JStr s) = Some s"
| "to_string (JArr xs) =
     map_option (join (u16 '',''))
       (those (map (\<lambda>x. if x = JNull then Some [] else to_string x) xs))"
| "to_string (JObj kvs) =
     (if map_of kvs (u16 ''toString'') = None then Some (u16 ''[object Object]'') else None)"

definition join_elem :: "json \<Rightarrow> jsstring option" where
  "join_elem v = (if v = JNull then Some [] else to_string v)"

definition join_js :: "jsstring \<Rightarrow> json list \<Rightarrow> jsstring option" where
  "join_js sep xs = map_option (join sep) (those (map join_elem xs))"

text \<open>\<open>a || b\<close> on strings, and with a JSON value or \<open>undefined\<close> on the left.\<close>

definition or_str :: "jsstring \<Rightarrow> jsstring \<Rightarrow> jsstring" where
  "or_str a b = (if a \<noteq> [] then a else b)"

definition or_else :: "json option \<Rightarrow> json \<Rightarrow> json" where
  "or_else a b = (case a of None \<Rightarrow> b | Some v \<Rightarrow> if truthy v then v else b)"

text \<open>
  \<open>encodeURIComponent\<close> throws \<open>URIError\<close> exactly on a string with a lone surrogate.
\<close>

definition is_high :: "16 word \<Rightarrow> bool" where
  "is_high c \<longleftrightarrow> 0xD800 \<le> c \<and> c \<le> 0xDBFF"

definition is_low :: "16 word \<Rightarrow> bool" where
  "is_low c \<longleftrightarrow> 0xDC00 \<le> c \<and> c \<le> 0xDFFF"

fun well_formed :: "jsstring \<Rightarrow> bool" where
  "well_formed [] = True"
| "well_formed [c] = (\<not> is_high c \<and> \<not> is_low c)"
| "well_formed (c # d # ds) =
     (if is_high c then is_low d \<and> well_formed ds
      else \<not> is_low c \<and> well_formed (d # ds))"

section \<open>The environment: configuration, runtime tables, network\<close>

text \<open>
  The three HTTP requests the adapters send, by their variable parts: the DeepL form POST
  (Authorization header, \<open>text\<close>, \<open>target_lang\<close>), the LibreTranslate JSON POST (URL, \<open>q\<close>,
  \<open>target\<close>) and the Google GET (\<open>tl\<close>, \<open>q\<close>).
\<close>

datatype request =
    DeepL_POST jsstring jsstring jsstring
  | Libre_POST jsstring jsstring jsstring
  | Google_GET jsstring jsstring

text \<open>
  A response: its status, its \<open>content-type\<close> header (\<open>None\<close> when absent), and what
  \<open>res.text()\<close> and \<open>res.json()\<close> resolve to (\<open>None\<close> when they reject).
\<close>

record response =
  status :: nat
  content_type :: "jsstring option"
  text_body :: "jsstring option"
  json_body :: "json option"

definition ok :: "response \<Rightarrow> bool" where
  "ok res \<longleftrightarrow> 200 \<le> status res \<and> status res \<le> 299"

datatype fetch_result = Rejected jsstring | Resolved response

text \<open>
  What a run does, in order: the calls of the adapters with their arguments, and the
  requests handed to \<open>fetch\<close>. \<open>console.warn\<close> output is not recorded.
\<close>

datatype event =
    Call_translateDeepL jsstring jsstring
  | Call_translateLibre jsstring jsstring
  | Call_translateLibreAt jsstring jsstring jsstring
  | Call_translateGooglePublic jsstring jsstring
  | Fetch request

text \<open>
  \<open>env_DEEPL_KEY\<close> and \<open>env_LIBRETRANSLATE_URLS\<close> are the variables of \<open>process.env\<close>
  (\<open>None\<close> when unset). \<open>unicode_lower\<close> and \<open>unicode_upper\<close> are the runtime's case
  conversions on strings that are not pure ASCII. \<open>fetch\<close> is the network: the outcome of a
  request may depend on everything the run has done so far, so that the same request can
  be answered differently each time; an aborted or failed request is \<open>Rejected\<close>. Every
  request settles: how long an answer takes, and a request that never completes, are
  outside the model.
\<close>

record env =
  env_DEEPL_KEY :: "jsstring option"
  env_LIBRETRANSLATE_URLS :: "jsstring option"
  unicode_lower :: "jsstring \<Rightarrow> jsstring"
  unicode_upper :: "jsstring \<Rightarrow> jsstring"
  fetch :: "event list \<Rightarrow> request \<Rightarrow> fetch_result"

definition toLowerCase :: "env \<Rightarrow> jsstring \<Rightarrow> jsstring" where
  "toLowerCase e s = (if list_all is_ascii s then map ascii_lower s else unicode_lower e s)"

definition toUpperCase :: "env \<Rightarrow> jsstring \<Rightarrow> jsstring" where
  "toUpperCase e s = (if list_all is_ascii s then map ascii_upper s else unicode_upper e s)"

text \<open>The exceptions of the adapters, by message template.\<close>

datatype error =
    FetchError jsstring
  | BodyError
  | DeepLStatus nat
  | LibreStatus nat jsstring jsstring
  | LibreContentType jsstring jsstring jsstring
  | LibreJsonParse jsstring
  | GoogleStatus nat
  | URIError
  | TypeError
  | NoEndpoint

type_synonym 'a io = "event list \<Rightarrow> (error + 'a) \<times> event list"

section \<open>Configuration constants\<close>

definition DEEPL_SUPPORTED_TARGETS :: "jsstring list" where
  "DEEPL_SUPPORTED_TARGETS = map u16
     [''BG'', ''CS'', ''DA'', ''DE'', ''EL'', ''EN'', ''EN-GB'', ''EN-US'', ''ES'', ''ET'', ''FI'',
      ''FR'', ''HU'', ''ID'', ''IT'', ''JA'', ''KO'', ''LT'', ''LV'', ''NB'', ''NL'', ''PL'', ''PT'',
      ''PT-PT'', ''PT-BR'', ''RO'', ''RU'', ''SK'', ''SL'', ''SV'', ''TR'', ''UK'', ''ZH'']"

definition LIBRETRANSLATE_URLS :: "env \<Rightarrow> jsstring" where
  "LIBRETRANSLATE_URLS e =
     (case env_LIBRETRANSLATE_URLS e of
        None \<Rightarrow> u16 ''https://libretranslate.de,http://localhost:5000''
      | Some s \<Rightarrow> s)"

definition LIBRE_ENDPOINTS :: "env \<Rightarrow> jsstring list" where
  "LIBRE_ENDPOINTS e =
     filter (\<lambda>s. s \<noteq> []) (map trim (split 0x2C (or_str (LIBRETRANSLATE_URLS e) [])))"

section \<open>Helpers\<close>

definition dict :: "(jsstring \<times> jsstring) list" where
  "dict =
     [([0x3082, 0x3057, 0x20, 0x3082, 0x3057], u16 ''hello''),
      ([0x3082, 0x3057, 0x3082, 0x3057], u16 ''hello''),
      ([0x3053, 0x3093, 0x306B, 0x3061, 0x306F], u16 ''hello''),
      ([0x3053, 0x3093, 0x3070, 0x3093, 0x306F], u16 ''good evening''),
      ([0x3042, 0x308A, 0x304C, 0x3068, 0x3046], u16 ''thank you''),
      (u16 ''afrikaans dankie'', u16 ''thank you''),
      (u16 ''dankie'', u16 ''thank you'')]"

definition preProcessText :: "env \<Rightarrow> jsstring \<Rightarrow> jsstring" where
  "preProcessText e text =
     (let t = toLowerCase e (trim (or_str text []))
      in case map_of dict t of None \<Rightarrow> text | Some v \<Rightarrow> or_str v text)"

section \<open>The primary adapter: DeepL\<close>

definition authorization :: "env \<Rightarrow> jsstring" where
  "authorization e =
     u16 ''DeepL-Auth-Key '' @ (case env_DEEPL_KEY e of None \<Rightarrow> u16 ''undefined'' | Some k \<Rightarrow> k)"

text \<open>\<open>data?.translations?.[0]?.text\<close>\<close>

definition deepl_field :: "json \<Rightarrow> json option" where
  "deepl_field data =
     field (u16 ''text'') (index0 (field (u16 ''translations'') (Some data)))"

definition translateDeepL :: "env \<Rightarrow> jsstring \<Rightarrow> jsstring \<Rightarrow> json io" where
  "translateDeepL e text target tr0 =
     (let tr1 = tr0 @ [Call_translateDeepL text target];
          req = DeepL_POST (authorization e) text target;
          tr2 = tr1 @ [Fetch req]
      in case fetch e tr1 req of
           Rejected m \<Rightarrow> (Inl (FetchError m), tr2)
         | Resolved res \<Rightarrow>
             if \<not> ok res then (Inl (DeepLStatus (status res)), tr2)
             else (case json_body res of
                     None \<Rightarrow> (Inl BodyError, tr2)
                   | Some data \<Rightarrow>
                       (Inr (or_else (deepl_field data) (JStr text)), tr2)))"

section \<open>The pooled adapter: LibreTranslate\<close>

text \<open>\<open>baseUrl.replace(/\/+$/, '')\<close>: the slashes at the end are removed.\<close>

definition strip_slashes :: "jsstring \<Rightarrow> jsstring" where
  "strip_slashes s = rev (dropWhile (\<lambda>c. c = 0x2F) (rev s))"

definition bodyTxt :: "response \<Rightarrow> jsstring" where
  "bodyTxt res = (case text_body res of None \<Rightarrow> [] | Some t \<Rightarrow> t)"

definition libre_request :: "jsstring \<Rightarrow> jsstring \<Rightarrow> jsstring \<Rightarrow> request" where
  "libre_request baseUrl text to = Libre_POST (strip_slashes baseUrl @ u16 ''/translate'') text to"

text \<open>\<open>data?.translatedText\<close>\<close>

definition libre_field :: "json \<Rightarrow> json option" where
  "libre_field data = field (u16 ''translatedText'') (Some data)"

text \<open>
  The timer of \<open>withTimeout(8000)\<close> aborts the request; the aborted \<open>fetch\<close> rejects, which
  is one of the \<open>Rejected\<close> outcomes. After a failed \<open>res.json()\<close> the body is used up, so
  the excerpt in the parse-failure message is empty.
\<close>

definition translateLibreAt :: "env \<Rightarrow> jsstring \<Rightarrow> jsstring \<Rightarrow> jsstring \<Rightarrow> json io" where
  "translateLibreAt e baseUrl text to tr0 =
     (let tr1 = tr0 @ [Call_translateLibreAt baseUrl text to];
          req = libre_request baseUrl text to;
          tr2 = tr1 @ [Fetch req]
      in case fetch e tr1 req of
           Rejected m \<Rightarrow> (Inl (FetchError m), tr2)
         | Resolved res \<Rightarrow>
             if \<not> ok res
             then (Inl (LibreStatus (status res) baseUrl (take 120 (bodyTxt res))), tr2)
             else
               (let ct = toLowerCase e
                           (case content_type res of None \<Rightarrow> [] | Some c \<Rightarrow> or_str c [])
                in if \<not> includes_js ct (u16 ''application/json'')
                   then (Inl (LibreContentType ct baseUrl (take 80 (bodyTxt res))), tr2)
                   else (case json_body res of
                           None \<Rightarrow> (Inl (LibreJsonParse baseUrl), tr2)
                         | Some data \<Rightarrow>
                             (Inr (or_else (libre_field data) (JStr text)), tr2))))"

text \<open>The \<open>for\<close> loop of \<open>translateLibre\<close> over the endpoints still to try.\<close>

fun libre_loop ::
  "env \<Rightarrow> jsstring list \<Rightarrow> jsstring \<Rightarrow> jsstring \<Rightarrow> error option \<Rightarrow> json io" where
  "libre_loop e [] text to lastErr tr =
     (Inl (case lastErr of None \<Rightarrow> NoEndpoint | Some err \<Rightarrow> err), tr)"
| "libre_loop e (base # rest) text to lastErr tr =
     (case translateLibreAt e base text to tr of
        (Inr v, tr') \<Rightarrow> (Inr v, tr')
      | (Inl err, tr') \<Rightarrow> libre_loop e rest text to (Some err) tr')"

definition endpoint_list :: "env \<Rightarrow> jsstring list" where
  "endpoint_list e =
     (if LIBRE_ENDPOINTS e \<noteq> [] then LIBRE_ENDPOINTS e else [u16 ''https://libretranslate.de''])"

definition translateLibre :: "env \<Rightarrow> jsstring \<Rightarrow> jsstring \<Rightarrow> json io" where
  "translateLibre e text to tr0 =
     libre_loop e (endpoint_list e) text to None (tr0 @ [Call_translateLibre text to])"

section \<open>The last resort: the public Google endpoint\<close>

text \<open>
  \<open>(json?.[0] || []).map(seg => seg?.[0]).filter(Boolean)\<close>: \<open>map\<close> exists on arrays only,
  on any other truthy value the call is a \<open>TypeError\<close>. \<open>chunks.join(' ')\<close> throws a
  \<open>TypeError\<close> when a chunk cannot be converted to a string.
\<close>

definition chunks_of :: "json list \<Rightarrow> json list" where
  "chunks_of segs = filter truthy (List.map_filter (\<lambda>seg. index0 (Some seg)) segs)"

definition translateGooglePublic :: "env \<Rightarrow> jsstring \<Rightarrow> jsstring \<Rightarrow> json io" where
  "translateGooglePublic e text to tr0 =
     (let tr1 = tr0 @ [Call_translateGooglePublic text to]
      in if \<not> (well_formed to \<and> well_formed text) then (Inl URIError, tr1)
         else
           (let req = Google_GET to text;
                tr2 = tr1 @ [Fetch req]
            in case fetch e tr1 req of
                 Rejected m \<Rightarrow> (Inl (FetchError m), tr2)
               | Resolved res \<Rightarrow>
                   if \<not> ok res then (Inl (GoogleStatus (status res)), tr2)
                   else (case json_body res of
                           None \<Rightarrow> (Inl BodyError, tr2)
                         | Some json \<Rightarrow>
                             (case or_else (index0 (Some json)) (JArr []) of
                                JArr segs \<Rightarrow>
                                  (case join_js (u16 '' '') (chunks_of segs) of
                                     None \<Rightarrow> (Inl TypeError, tr2)
                                   | Some joined \<Rightarrow>
                                       (Inr (JStr (or_str joined text)), tr2))
                              | _ \<Rightarrow> (Inl TypeError, tr2)))))"

section \<open>The orchestrator\<close>

definition targetBase :: "env \<Rightarrow> jsstring \<Rightarrow> jsstring" where
  "targetBase e targetDeepL = toLowerCase e (hd (split 0x2D targetDeepL))"

definition deepl_eligible :: "env \<Rightarrow> jsstring \<Rightarrow> bool" where
  "deepl_eligible e targetDeepL \<longleftrightarrow>
     (case env_DEEPL_KEY e of None \<Rightarrow> False | Some k \<Rightarrow> k \<noteq> [])
     \<and> toUpperCase e targetDeepL \<in> set DEEPL_SUPPORTED_TARGETS"

text \<open>The second and third \<open>try\<close> blocks of \<open>smartTranslate\<close>.\<close>

definition libre_then_google :: "env \<Rightarrow> jsstring \<Rightarrow> jsstring \<Rightarrow> json io" where
  "libre_then_google e text base tr =
     (case translateLibre e text base tr of
        (Inr v, tr1) \<Rightarrow> (Inr v, tr1)
      | (Inl _, tr1) \<Rightarrow>
          (case translateGooglePublic e text base tr1 of
             (Inr v, tr2) \<Rightarrow> (Inr v, tr2)
           | (Inl _, tr2) \<Rightarrow> (Inr (JStr text), tr2)))"

definition smartTranslate :: "env \<Rightarrow> jsstring \<Rightarrow> jsstring \<Rightarrow> json io" where
  "smartTranslate e original targetDeepL tr =
     (let text = preProcessText e original;
          base = targetBase e targetDeepL
      in if deepl_eligible e targetDeepL
         then (case translateDeepL e text targetDeepL tr of
                 (Inr v, tr1) \<Rightarrow> (Inr v, tr1)
               | (Inl _, tr1) \<Rightarrow> libre_then_google e text base tr1)
         else libre_then_google e text base tr)"

section \<open>Observing a run\<close>

text \<open>
  One call of \<open>translateLibreAt\<close> leaves two events, whatever its outcome; \<open>attempts\<close> is
  what trying the endpoints \<open>bs\<close> one after the other leaves, and \<open>deepl_events\<close> what one
  call of \<open>translateDeepL\<close> leaves. \<open>all_fail\<close> says that each of these tries throws, each
  made after the ones before it. \<open>primary_passed\<close> says that the primary tier is over
  without a result, skipped or failed, and the run has reached \<open>tr1\<close>. \<open>is_deepl_event\<close>
  marks what the primary adapter leaves in a run.
\<close>

definition attempt_events :: "jsstring \<Rightarrow> jsstring \<Rightarrow> jsstring \<Rightarrow> event list" where
  "attempt_events baseUrl text to =
     [Call_translateLibreAt baseUrl text to, Fetch (libre_request baseUrl text to)]"

definition attempts :: "jsstring list \<Rightarrow> jsstring \<Rightarrow> jsstring \<Rightarrow> event list" where
  "attempts bs text to = concat (map (\<lambda>b. attempt_events b text to) bs)"

fun all_fail :: "env \<Rightarrow> jsstring list \<Rightarrow> jsstring \<Rightarrow> jsstring \<Rightarrow> event list \<Rightarrow> bool" where
  "all_fail e [] text to tr = True"
| "all_fail e (b # bs) text to tr =
     (isl (fst (translateLibreAt e b text to tr))
      \<and> all_fail e bs text to (tr @ attempt_events b text to))"

definition deepl_events :: "env \<Rightarrow> jsstring \<Rightarrow> jsstring \<Rightarrow> event list" where
  "deepl_events e text target =
     [Call_translateDeepL text target, Fetch (DeepL_POST (authorization e) text target)]"

definition primary_passed :: "env \<Rightarrow> jsstring \<Rightarrow> jsstring \<Rightarrow> event list \<Rightarrow> event list \<Rightarrow> bool" where
  "primary_passed e text code tr tr1 \<longleftrightarrow>
     (if deepl_eligible e code
      then isl (fst (translateDeepL e text code tr)) \<and> tr1 = tr @ deepl_events e text code
      else tr1 = tr)"

fun is_deepl_event :: "event \<Rightarrow> bool" where
  "is_deepl_event (Call_translateDeepL text target) = True"
| "is_deepl_event (Fetch (DeepL_POST auth text target)) = True"
| "is_deepl_event ev = False"

text \<open>
  \<open>success_json r data\<close>: the request was answered with a success status and a body that
  parses to \<open>data\<close>. \<open>json_typed e r\<close>: the answer declares a JSON content type, as the
  pooled adapter requires.
\<close>

definition success_json :: "fetch_result \<Rightarrow> json \<Rightarrow> bool" where
  "success_json r data \<longleftrightarrow>
     (case r of Rejected m \<Rightarrow> False | Resolved res \<Rightarrow> ok res \<and> json_body res = Some data)"

definition json_typed :: "env \<Rightarrow> fetch_result \<Rightarrow> bool" where
  "json_typed e r \<longleftrightarrow>
     (case r of
        Rejected m \<Rightarrow> False
      | Resolved res \<Rightarrow>
          includes_js (toLowerCase e (case content_type res of None \<Rightarrow> [] | Some c \<Rightarrow> c))
            (u16 ''application/json''))"

text \<open>
  A response is typed when its translated-text fields, the one DeepL fills and the one
  LibreTranslate fills, hold a string or nothing truthy; \<open>typed_responses\<close> says that the
  network of the environment gives only such responses.
\<close>

definition text_or_falsy :: "json option \<Rightarrow> bool" where
  "text_or_falsy v = (case v of Some (JStr s) \<Rightarrow> True | _ \<Rightarrow> \<not> truthy_opt v)"

definition typed_response :: "response \<Rightarrow> bool" where
  "typed_response res =
     (case json_body res of
        None \<Rightarrow> True
      | Some data \<Rightarrow> text_or_falsy (deepl_field data) \<and> text_or_falsy (libre_field data))"

definition typed_responses :: "env \<Rightarrow> bool" where
  "typed_responses e \<longleftrightarrow> (\<forall>tr req res. fetch e tr req = Resolved res \<longrightarrow> typed_response res)"

section \<open>Sample environments\<close>

text \<open>
  Concrete environments for the examples: a pool of two endpoints, the first written with
  a trailing slash and the second after a blank, identity case tables beyond ASCII, and a
  network that is given. \<open>fixed_net\<close> answers every request alike, \<open>offline\<close> rejects them
  all, \<open>google_only\<close> answers the Google endpoint alone, \<open>sample_net\<close> answers DeepL,
  the second LibreTranslate endpoint and Google. \<open>numeric_answer\<close>, \<open>empty_answer\<close> and
  \<open>plain_response\<close> are answers a server can give: a number and empty strings where the
  translation is expected, and an empty JSON object sent as plain text. \<open>mixed_answer\<close> is
  an answer of the Google endpoint whose segments start with values of every kind, and
  \<open>toString_answer\<close> one whose only segment starts with an object owning \<open>toString\<close>.
\<close>

definition json_response :: "nat \<Rightarrow> json \<Rightarrow> response" where
  "json_response st body =
     \<lparr>status = st, content_type = Some (u16 ''application/json; charset=utf-8''),
      text_body = None, json_body = Some body\<rparr>"

definition sample_env :: "jsstring option \<Rightarrow> (event list \<Rightarrow> request \<Rightarrow> fetch_result) \<Rightarrow> env" where
  "sample_env key net =
     \<lparr>env_DEEPL_KEY = key, env_LIBRETRANSLATE_URLS = Some (u16 ''http://a/, http://b''),
      unicode_lower = (\<lambda>s. s), unicode_upper = (\<lambda>s. s), fetch = net\<rparr>"

definition fixed_net :: "fetch_result \<Rightarrow> event list \<Rightarrow> request \<Rightarrow> fetch_result" where
  "fixed_net r tr req = r"

definition offline :: "event list \<Rightarrow> request \<Rightarrow> fetch_result" where
  "offline = fixed_net (Rejected (u16 ''offline''))"

definition google_only :: "json \<Rightarrow> event list \<Rightarrow> request \<Rightarrow> fetch_result" where
  "google_only body tr req =
     (case req of
        Google_GET lang q \<Rightarrow> Resolved (json_response 200 body)
      | _ \<Rightarrow> Rejected (u16 ''ECONNREFUSED''))"

definition sample_net :: "event list \<Rightarrow> request \<Rightarrow> fetch_result" where
  "sample_net tr req =
     (case req of
        DeepL_POST auth text target \<Rightarrow>
          Resolved (json_response 200
            (JObj [(u16 ''translations'', JArr [JObj [(u16 ''text'', JStr (u16 ''Thank you!''))]])]))
      | Libre_POST url text target \<Rightarrow>
          if url = u16 ''http://b/translate''
          then Resolved (json_response 200 (JObj [(u16 ''translatedText'', JStr (u16 ''ola''))]))
          else Rejected (u16 ''ECONNREFUSED'')
      | Google_GET lang q \<Rightarrow>
          Resolved (json_response 200
            (JArr [JArr [JArr [JStr (u16 ''Guten''), JStr (u16 ''good'')], JArr [],
                         JArr [JStr []], JArr [JStr (u16 ''Tag'')]],
                   JNull, JStr (u16 ''en'')])))"

definition numeric_answer :: json where
  "numeric_answer = JObj [(u16 ''translatedText'', JNum (u16 ''42''))]"

definition empty_answer :: json where
  "empty_answer =
     JObj [(u16 ''translatedText'', JStr []),
           (u16 ''translations'', JArr [JObj [(u16 ''text'', JStr [])]])]"

definition plain_response :: response where
  "plain_response =
     \<lparr>status = 200, content_type = Some (u16 ''text/plain''),
      text_body = Some (u16 ''{}''), json_body = Some (JObj [])\<rparr>"

definition mixed_segments :: "json list" where
  "mixed_segments =
     [JArr [JStr (u16 ''Guten''), JStr (u16 ''good'')], JArr [], JArr [JStr []], JNull,
      JArr [JNum (u16 ''5'')], JArr [JBool True], JArr [JBool False], JArr [JNum (u16 ''0'')],
      JArr [JArr [JNum (u16 ''1''), JNull, JStr (u16 ''x'')]], JArr [JObj []],
      JArr [JStr (u16 ''Tag'')]]"

definition mixed_answer :: json where
  "mixed_answer = JArr [JArr mixed_segments, JNull, JStr (u16 ''en'')]"

definition toString_answer :: json where
  "toString_answer = JArr [JArr [JArr [JObj [(u16 ''toString'', JStr (u16 ''x''))]]]]"

section \<open>Properties of the normalizer\<close>

lemma or_str_empty: "or_str s [] = s"
  by (simp add: or_str_def)

lemma dict_values:
  assumes "map_of dict t = Some v"
  shows "v = u16 ''hello'' \<or> v = u16 ''good evening'' \<or> v = u16 ''thank you''"
proof -
  from assms have "(t, v) \<in> set dict" by (rule map_of_SomeD)
  then show ?thesis by (auto simp: dict_def)
qed

lemma toLowerCase_hello: "toLowerCase e (trim (u16 ''hello'')) = u16 ''hello''"
  by (simp add: toLowerCase_def trim_def u16_def is_ws_def is_ascii_def ascii_lower_def)

lemma toLowerCase_evening: "toLowerCase e (trim (u16 ''good evening'')) = u16 ''good evening''"
  by (simp add: toLowerCase_def trim_def u16_def is_ws_def is_ascii_def ascii_lower_def)

lemma toLowerCase_thank: "toLowerCase e (trim (u16 ''thank you'')) = u16 ''thank you''"
  by (simp add: toLowerCase_def trim_def u16_def is_ws_def is_ascii_def ascii_lower_def)

lemma dict_hello: "map_of dict (u16 ''hello'') = None"
  by (simp add: dict_def u16_def)

lemma dict_evening: "map_of dict (u16 ''good evening'') = None"
  by (simp add: dict_def u16_def)

lemma dict_thank: "map_of dict (u16 ''thank you'') = None"
  by (simp add: dict_def u16_def)

lemma value_key_miss:
  assumes "map_of dict t = Some v"
  shows "map_of dict (toLowerCase e (trim v)) = None"
  using dict_values [OF assms]
  by (auto simp: toLowerCase_hello toLowerCase_evening toLowerCase_thank dict_hello dict_evening dict_thank)

lemma value_nonempty:
  assumes "map_of dict t = Some v"
  shows "v \<noteq> []"
  using dict_values [OF assms] by (auto simp: u16_def)

lemma preProcessText_lookup:
  "preProcessText e text =
     (case map_of dict (toLowerCase e (trim text)) of Some v \<Rightarrow> v | None \<Rightarrow> text)"
  by (auto simp: preProcessText_def or_str_def Let_def value_nonempty split: option.splits)

lemma arigato: "preProcessText (sample_env key net) [0x3042, 0x308A, 0x304C, 0x3068, 0x3046] = u16 ''thank you''"
  by (simp add: preProcessText_lookup toLowerCase_def trim_def is_ws_def is_ascii_def sample_env_def dict_def)

lemma dankie: "preProcessText e (u16 '' Dankie'') = u16 ''thank you''"
  by (simp add: preProcessText_lookup toLowerCase_def trim_def is_ws_def is_ascii_def
      ascii_lower_def dict_def u16_def)

lemma hi_miss: "preProcessText e (u16 ''hi'') = u16 ''hi''"
  by (simp add: preProcessText_lookup toLowerCase_def trim_def is_ws_def is_ascii_def
      ascii_lower_def dict_def u16_def)

text \<open>
  C7. \<open>preProcessText\<close> is a function from strings to strings with no error branch. Its
  lookup key is the input trimmed, then lowercased. When the phrase table has the key, the
  result is the table's value as it stands; when it has not, the result is the input itself,
  untrimmed and in its own case.
\<close>

theorem preProcessText_contract:
  "preProcessText e text =
     (case map_of dict (toLowerCase e (trim text)) of Some v \<Rightarrow> v | None \<Rightarrow> text)"
  by (rule preProcessText_lookup)

theorem preProcessText_contract_witness:
  "preProcessText (sample_env None offline) (u16 '' Dankie'') = u16 ''thank you''
   \<and> preProcessText (sample_env None offline) (u16 ''Hi '') = u16 ''Hi ''"
  using preProcessText_contract [of "sample_env None offline" "u16 '' Dankie''"]
    preProcessText_contract [of "sample_env None offline" "u16 ''Hi ''"]
  by (simp add: toLowerCase_def trim_def is_ws_def is_ascii_def ascii_lower_def dict_def u16_def)

text \<open>
  C9. Normalising twice is normalising once, for every string; and no value of the phrase
  table, trimmed and lowercased, is a key of the table.
\<close>

theorem preProcessText_idempotent:
  "preProcessText e (preProcessText e x) = preProcessText e x
   \<and> list_all (\<lambda>(k, v). map_of dict (toLowerCase e (trim v)) = None) dict"
proof
  show "preProcessText e (preProcessText e x) = preProcessText e x"
  proof (cases "map_of dict (toLowerCase e (trim x))")
    case None
    then show ?thesis by (simp add: preProcessText_lookup)
  next
    case (Some v)
    then have "preProcessText e x = v" by (simp add: preProcessText_lookup)
    moreover have "preProcessText e v = v"
      using value_key_miss [OF Some] by (simp add: preProcessText_lookup)
    ultimately show ?thesis by simp
  qed
next
  have "list_all (\<lambda>(k, v). map_of dict (toLowerCase e (trim v)) = None)
          [(a, u16 ''hello''), (b, u16 ''hello''), (c, u16 ''hello''), (d, u16 ''good evening''),
           (f, u16 ''thank you''), (g, u16 ''thank you''), (h, u16 ''thank you'')]" for a b c d f g h :: jsstring
    by (simp add: toLowerCase_hello toLowerCase_evening toLowerCase_thank
        dict_hello dict_evening dict_thank)
  then show "list_all (\<lambda>(k, v). map_of dict (toLowerCase e (trim v)) = None) dict"
    unfolding dict_def .
qed

theorem preProcessText_idempotent_witness:
  "preProcessText (sample_env None offline)
     (preProcessText (sample_env None offline) [0x3042, 0x308A, 0x304C, 0x3068, 0x3046])
   = u16 ''thank you''"
  using preProcessText_idempotent [of "sample_env None offline" "[0x3042, 0x308A, 0x304C, 0x3068, 0x3046]"]
  by (simp add: arigato)

section \<open>Target codes\<close>

lemma split_nonempty: "split sep s \<noteq> []"
  by (induction s) (auto split: list.splits)

lemma hd_split: "hd (split sep s) = takeWhile (\<lambda>c. c \<noteq> sep) s"
proof (induction s)
  case Nil
  show ?case by simp
next
  case (Cons c cs)
  with split_nonempty [of sep cs] show ?case
    by (cases "split sep cs") auto
qed

lemma targetBase_takeWhile: "targetBase e code = toLowerCase e (takeWhile (\<lambda>c. c \<noteq> 0x2D) code)"
  by (simp add: targetBase_def hd_split)

lemma upper_EN_US: "toUpperCase e (u16 ''EN-US'') = u16 ''EN-US''"
  by (simp add: toUpperCase_def u16_def is_ascii_def ascii_upper_def)

lemma EN_US_supported: "u16 ''EN-US'' \<in> set DEEPL_SUPPORTED_TARGETS"
  by (simp add: DEEPL_SUPPORTED_TARGETS_def)

lemma upper_ZH_TW: "toUpperCase e (u16 ''ZH-TW'') = u16 ''ZH-TW''"
  by (simp add: toUpperCase_def u16_def is_ascii_def ascii_upper_def)

lemma ZH_TW_unsupported: "u16 ''ZH-TW'' \<notin> set DEEPL_SUPPORTED_TARGETS"
  by (simp add: DEEPL_SUPPORTED_TARGETS_def u16_def)

lemma ZH_TW_not_eligible: "\<not> deepl_eligible e (u16 ''ZH-TW'')"
  by (simp add: deepl_eligible_def upper_ZH_TW ZH_TW_unsupported)

lemma targetBase_ZH_TW: "targetBase e (u16 ''ZH-TW'') = u16 ''zh''"
  by (simp add: targetBase_takeWhile toLowerCase_def u16_def is_ascii_def ascii_lower_def)

lemma targetBase_PT_PT: "targetBase e (u16 ''PT-PT'') = u16 ''pt''"
  by (simp add: targetBase_takeWhile toLowerCase_def u16_def is_ascii_def ascii_lower_def)

lemma targetBase_FR: "targetBase e (u16 ''FR'') = u16 ''fr''"
  by (simp add: targetBase_takeWhile toLowerCase_def u16_def is_ascii_def ascii_lower_def)

lemma PT_PT_eligible: "deepl_eligible (sample_env (Some (u16 ''secret'')) net) (u16 ''PT-PT'')"
  by (simp add: deepl_eligible_def sample_env_def toUpperCase_def is_ascii_def ascii_upper_def
      DEEPL_SUPPORTED_TARGETS_def u16_def)

lemma FR_eligible: "deepl_eligible (sample_env (Some (u16 ''secret'')) net) (u16 ''FR'')"
  by (simp add: deepl_eligible_def sample_env_def toUpperCase_def is_ascii_def ascii_upper_def
      DEEPL_SUPPORTED_TARGETS_def u16_def)

lemma no_key_not_eligible: "\<not> deepl_eligible (sample_env None net) code"
  by (simp add: deepl_eligible_def sample_env_def)

lemma wf_hi_fr: "well_formed (u16 ''fr'')" "well_formed (u16 ''hi'')"
  by (simp_all add: u16_def is_high_def is_low_def)

section \<open>Traces of the adapters\<close>

lemma translateLibreAt_trace:
  "snd (translateLibreAt e b text to tr) = tr @ attempt_events b text to"
  by (simp add: translateLibreAt_def attempt_events_def Let_def
      split: fetch_result.splits option.splits)

lemma translateDeepL_trace:
  "snd (translateDeepL e text target tr) = tr @ deepl_events e text target"
  by (simp add: translateDeepL_def deepl_events_def Let_def
      split: fetch_result.splits option.splits)

lemma attempts_Nil: "attempts [] text to = []"
  by (simp add: attempts_def)

lemma attempts_Cons: "attempts (b # bs) text to = attempt_events b text to @ attempts bs text to"
  by (simp add: attempts_def)

lemma attempts_append: "attempts (xs @ ys) text to = attempts xs text to @ attempts ys text to"
  by (simp add: attempts_def)

lemma libre_loop_skip:
  "all_fail e pre text to tr \<Longrightarrow> pre \<noteq> [] \<Longrightarrow>
   libre_loop e (pre @ rest) text to lastErr tr =
   libre_loop e rest text to
     (Some (projl (fst (translateLibreAt e (last pre) text to
                          (tr @ attempts (butlast pre) text to)))))
     (tr @ attempts pre text to)"
proof (induction pre arbitrary: lastErr tr)
  case Nil
  then show ?case by simp
next
  case (Cons b pre)
  obtain r tr1 where at: "translateLibreAt e b text to tr = (r, tr1)"
    by (cases "translateLibreAt e b text to tr")
  from translateLibreAt_trace [of e b "text" to tr] at
  have tr1: "tr1 = tr @ attempt_events b text to" by simp
  from Cons.prems at obtain err where r: "r = Inl err"
    by (cases r) auto
  show ?case
  proof (cases "pre = []")
    case True
    then show ?thesis using at r tr1 by (simp add: attempts_Nil attempts_Cons)
  next
    case False
    from Cons.prems have "all_fail e pre text to (tr @ attempt_events b text to)" by simp
    from Cons.IH [OF this False, of "Some err"] at r tr1 False
    show ?thesis by (simp add: attempts_Cons)
  qed
qed

lemma libre_loop_Inl:
  "libre_loop e bs text to lastErr tr = (Inl err, tr') \<Longrightarrow>
   all_fail e bs text to tr \<and> tr' = tr @ attempts bs text to
   \<and> (if bs = [] then err = (case lastErr of None \<Rightarrow> NoEndpoint | Some x \<Rightarrow> x)
      else fst (translateLibreAt e (last bs) text to (tr @ attempts (butlast bs) text to))
           = Inl err)"
proof (induction bs arbitrary: lastErr tr)
  case Nil
  then show ?case by (simp add: attempts_Nil)
next
  case (Cons b bs)
  obtain r tr1 where at: "translateLibreAt e b text to tr = (r, tr1)"
    by (cases "translateLibreAt e b text to tr")
  from translateLibreAt_trace [of e b "text" to tr] at
  have tr1: "tr1 = tr @ attempt_events b text to" by simp
  from Cons.prems at obtain e1 where r: "r = Inl e1"
    by (cases r) auto
  from Cons.prems at r have "libre_loop e bs text to (Some e1) tr1 = (Inl err, tr')"
    by simp
  from Cons.IH [OF this] at r tr1 show ?case
    by (auto simp: attempts_Cons attempts_Nil)
qed

lemma libre_loop_first_success:
  assumes "all_fail e pre text to tr"
    and "translateLibreAt e b text to (tr @ attempts pre text to) = (Inr v, tr')"
  shows "libre_loop e (pre @ b # post) text to lastErr tr = (Inr v, tr')"
proof (cases "pre = []")
  case True
  with assms show ?thesis by (simp add: attempts_Nil)
next
  case False
  from libre_loop_skip [OF assms(1) False] assms(2) show ?thesis by simp
qed

lemma all_fail_last:
  "all_fail e bs text to tr \<Longrightarrow> bs \<noteq> [] \<Longrightarrow>
   isl (fst (translateLibreAt e (last bs) text to (tr @ attempts (butlast bs) text to)))"
proof (induction bs arbitrary: tr)
  case Nil
  then show ?case by simp
next
  case (Cons b bs)
  show ?case
  proof (cases "bs = []")
    case True
    with Cons.prems show ?thesis by (simp add: attempts_Nil)
  next
    case False
    from Cons.prems have "all_fail e bs text to (tr @ attempt_events b text to)" by simp
    from Cons.IH [OF this False] False show ?thesis by (simp add: attempts_Cons)
  qed
qed

lemma endpoint_list_nonempty: "endpoint_list e \<noteq> []"
  by (simp add: endpoint_list_def)

lemma no_deepl_attempts: "\<not> list_ex is_deepl_event (attempts bs text to)"
  by (induction bs) (simp_all add: attempts_Nil attempts_Cons attempt_events_def libre_request_def)

lemma libre_loop_trace:
  "\<exists>bs'. snd (libre_loop e bs text to lastErr tr) = tr @ attempts bs' text to"
proof (induction bs arbitrary: lastErr tr)
  case Nil
  have "snd (libre_loop e [] text to lastErr tr) = tr @ attempts [] text to"
    by (simp add: attempts_Nil)
  then show ?case ..
next
  case (Cons b bs)
  obtain r tr1 where at: "translateLibreAt e b text to tr = (r, tr1)"
    by (cases "translateLibreAt e b text to tr")
  from translateLibreAt_trace [of e b "text" to tr] at
  have tr1: "tr1 = tr @ attempt_events b text to" by simp
  show ?case
  proof (cases r)
    case (Inr v)
    with at tr1 have "snd (libre_loop e (b # bs) text to lastErr tr) = tr @ attempts [b] text to"
      by (simp add: attempts_Cons attempts_Nil)
    then show ?thesis ..
  next
    case (Inl e1)
    from Cons.IH [of "Some e1" tr1] obtain bs' where
      "snd (libre_loop e bs text to (Some e1) tr1) = tr1 @ attempts bs' text to" ..
    with at tr1 Inl have
      "snd (libre_loop e (b # bs) text to lastErr tr) = tr @ attempts (b # bs') text to"
      by (simp add: attempts_Cons)
    then show ?thesis ..
  qed
qed

lemma translateGooglePublic_trace:
  "snd (translateGooglePublic e text to tr) = tr @ [Call_translateGooglePublic text to]
   \<or> snd (translateGooglePublic e text to tr) =
       tr @ [Call_translateGooglePublic text to, Fetch (Google_GET to text)]"
  by (simp add: translateGooglePublic_def Let_def
      split: fetch_result.splits option.splits json.splits)

lemma libre_then_google_trace:
  "\<exists>rest. snd (libre_then_google e text base tr) = tr @ Call_translateLibre text base # rest
          \<and> \<not> list_ex is_deepl_event rest"
proof -
  obtain r tr1 where lib: "translateLibre e text base tr = (r, tr1)"
    by (cases "translateLibre e text base tr")
  from libre_loop_trace [of e "endpoint_list e" "text" base None "tr @ [Call_translateLibre text base]"]
  obtain bs' where "snd (translateLibre e text base tr) =
      (tr @ [Call_translateLibre text base]) @ attempts bs' text base"
    unfolding translateLibre_def ..
  with lib have tr1: "tr1 = tr @ Call_translateLibre text base # attempts bs' text base" by simp
  show ?thesis
  proof (cases r)
    case (Inr v)
    with lib tr1 have "snd (libre_then_google e text base tr) =
        tr @ Call_translateLibre text base # attempts bs' text base"
      by (simp add: libre_then_google_def)
    with no_deepl_attempts [of bs' "text" base] show ?thesis by blast
  next
    case (Inl e1)
    obtain r2 tr2 where goo: "translateGooglePublic e text base tr1 = (r2, tr2)"
      by (cases "translateGooglePublic e text base tr1")
    with lib Inl have res: "snd (libre_then_google e text base tr) = tr2"
      by (cases r2) (simp_all add: libre_then_google_def)
    from translateGooglePublic_trace [of e "text" base tr1] goo
    consider "tr2 = tr1 @ [Call_translateGooglePublic text base]"
      | "tr2 = tr1 @ [Call_translateGooglePublic text base, Fetch (Google_GET base text)]"
      by auto
    then show ?thesis
    proof cases
      case 1
      with res tr1 have "snd (libre_then_google e text base tr) =
          tr @ Call_translateLibre text base
             # (attempts bs' text base @ [Call_translateGooglePublic text base])"
        by simp
      moreover have "\<not> list_ex is_deepl_event
          (attempts bs' text base @ [Call_translateGooglePublic text base])"
        using no_deepl_attempts [of bs' "text" base] by simp
      ultimately show ?thesis by blast
    next
      case 2
      with res tr1 have "snd (libre_then_google e text base tr) =
          tr @ Call_translateLibre text base
             # (attempts bs' text base
                @ [Call_translateGooglePublic text base, Fetch (Google_GET base text)])"
        by simp
      moreover have "\<not> list_ex is_deepl_event
          (attempts bs' text base
           @ [Call_translateGooglePublic text base, Fetch (Google_GET base text)])"
        using no_deepl_attempts [of bs' "text" base] by simp
      ultimately show ?thesis by blast
    qed
  qed
qed

section \<open>Answers of the adapters\<close>

lemma translateDeepL_success:
  assumes "success_json (fetch e (tr @ [Call_translateDeepL text target])
                           (DeepL_POST (authorization e) text target)) data"
  shows "translateDeepL e text target tr =
           (Inr (or_else (deepl_field data) (JStr text)), tr @ deepl_events e text target)"
  using assms
  by (auto simp: translateDeepL_def success_json_def deepl_events_def Let_def
      split: fetch_result.splits)

lemma translateLibreAt_success:
  assumes "success_json (fetch e (tr @ [Call_translateLibreAt b text to])
                           (libre_request b text to)) data"
    and "json_typed e (fetch e (tr @ [Call_translateLibreAt b text to]) (libre_request b text to))"
  shows "translateLibreAt e b text to tr =
           (Inr (or_else (libre_field data) (JStr text)), tr @ attempt_events b text to)"
  using assms
  by (auto simp: translateLibreAt_def success_json_def json_typed_def attempt_events_def
      or_str_def Let_def split: fetch_result.splits option.splits)

lemma translateGooglePublic_success:
  assumes "well_formed to" and "well_formed text"
    and "success_json (fetch e (tr @ [Call_translateGooglePublic text to]) (Google_GET to text)) data"
    and "or_else (index0 (Some data)) (JArr []) = JArr segs"
  shows "translateGooglePublic e text to tr =
           (case join_js (u16 '' '') (chunks_of segs) of
              None \<Rightarrow> Inl TypeError
            | Some joined \<Rightarrow> Inr (JStr (or_str joined text)),
            tr @ [Call_translateGooglePublic text to, Fetch (Google_GET to text)])"
  using assms
  by (auto simp: translateGooglePublic_def success_json_def Let_def
      split: fetch_result.splits option.splits)

lemma or_else_falsy: "\<not> truthy_opt a \<Longrightarrow> or_else a b = b"
  by (simp add: or_else_def truthy_opt_def split: option.splits)

lemma chunks_of_rows:
  "chunks_of (map JArr rows) = filter truthy (map hd (filter (\<lambda>r. r \<noteq> []) rows))"
proof -
  have "List.map_filter (\<lambda>seg. index0 (Some seg)) (map JArr rows)
        = map hd (filter (\<lambda>r. r \<noteq> []) rows)"
    by (induction rows) (auto simp: List.map_filter_simps split: list.splits)
  then show ?thesis by (simp add: chunks_of_def)
qed

lemma those_strings: "those (map (to_string \<circ> JStr) ss) = Some ss"
  by (induction ss) simp_all

lemma join_nonempty: "\<forall>s \<in> set ss. s \<noteq> [] \<Longrightarrow> ss \<noteq> [] \<Longrightarrow> join sep ss \<noteq> []"
  by (induction sep ss rule: join.induct) simp_all

lemma truthy_not_null: "truthy x \<Longrightarrow> join_elem x = to_string x"
  by (cases x) (simp_all add: join_elem_def)

lemma join_js_chunks:
  "join_js sep (chunks_of segs) = map_option (join sep) (those (map to_string (chunks_of segs)))"
proof -
  have eq: "map join_elem (chunks_of segs) = map to_string (chunks_of segs)"
    by (simp add: chunks_of_def truthy_not_null)
  show ?thesis by (simp only: join_js_def eq)
qed

lemma truthy_strings:
  assumes "filter truthy xs = map JStr ss"
  shows "\<forall>s \<in> set ss. s \<noteq> []"
proof
  fix s assume "s \<in> set ss"
  then have "JStr s \<in> set (filter truthy xs)" using assms by simp
  then have "truthy (JStr s)" by simp
  then show "s \<noteq> []" by simp
qed

lemma or_else_text: "text_or_falsy a \<Longrightarrow> \<exists>s. or_else a (JStr t) = JStr s"
  by (auto simp: text_or_falsy_def or_else_def truthy_opt_def split: option.splits json.splits)

lemma translateDeepL_string:
  assumes "typed_responses e" and "translateDeepL e text target tr = (Inr v, tr')"
  shows "\<exists>s. v = JStr s"
proof (cases "fetch e (tr @ [Call_translateDeepL text target]) (DeepL_POST (authorization e) text target)")
  case (Rejected m)
  with assms(2) show ?thesis by (simp add: translateDeepL_def Let_def)
next
  case (Resolved res)
  with assms(1) have ty: "typed_response res" by (auto simp: typed_responses_def)
  show ?thesis
  proof (cases "json_body res")
    case None
    with Resolved assms(2) show ?thesis
      by (simp add: translateDeepL_def Let_def split: if_splits)
  next
    case (Some data)
    with ty have "text_or_falsy (deepl_field data)" by (simp add: typed_response_def)
    from or_else_text [OF this, of "text"] obtain s where
      "or_else (deepl_field data) (JStr text) = JStr s" ..
    moreover from Resolved Some assms(2) have "v = or_else (deepl_field data) (JStr text)"
      by (simp add: translateDeepL_def Let_def split: if_splits)
    ultimately show ?thesis by simp
  qed
qed

lemma translateLibreAt_string:
  assumes "typed_responses e" and "translateLibreAt e b text to tr = (Inr v, tr')"
  shows "\<exists>s. v = JStr s"
proof (cases "fetch e (tr @ [Call_translateLibreAt b text to]) (libre_request b text to)")
  case (Rejected m)
  with assms(2) show ?thesis by (simp add: translateLibreAt_def Let_def)
next
  case (Resolved res)
  with assms(1) have ty: "typed_response res" by (auto simp: typed_responses_def)
  show ?thesis
  proof (cases "json_body res")
    case None
    with Resolved assms(2) show ?thesis
      by (simp add: translateLibreAt_def Let_def split: if_splits)
  next
    case (Some data)
    with ty have "text_or_falsy (libre_field data)" by (simp add: typed_response_def)
    from or_else_text [OF this, of "text"] obtain s where
      "or_else (libre_field data) (JStr text) = JStr s" ..
    moreover from Resolved Some assms(2) have "v = or_else (libre_field data) (JStr text)"
      by (simp add: translateLibreAt_def Let_def split: if_splits)
    ultimately show ?thesis by simp
  qed
qed

lemma libre_loop_string:
  assumes "typed_responses e"
  shows "libre_loop e bs text to lastErr tr = (Inr v, tr') \<Longrightarrow> \<exists>s. v = JStr s"
proof (induction bs arbitrary: lastErr tr)
  case Nil
  then show ?case by simp
next
  case (Cons b bs)
  obtain r tr1 where at: "translateLibreAt e b text to tr = (r, tr1)"
    by (cases "translateLibreAt e b text to tr")
  show ?case
  proof (cases r)
    case (Inr w)
    with at Cons.prems have "w = v" by simp
    with translateLibreAt_string [OF assms] at Inr show ?thesis by blast
  next
    case (Inl e1)
    with at Cons.prems have "libre_loop e bs text to (Some e1) tr1 = (Inr v, tr')" by simp
    then show ?thesis by (rule Cons.IH)
  qed
qed

lemma translateGooglePublic_string:
  "translateGooglePublic e text to tr = (Inr v, tr') \<Longrightarrow> \<exists>s. v = JStr s"
  by (auto simp: translateGooglePublic_def Let_def
      split: if_splits fetch_result.splits option.splits json.splits)

section \<open>Runs of the orchestrator\<close>

lemma libre_then_google_string:
  assumes "typed_responses e"
  shows "\<exists>s. fst (libre_then_google e text base tr) = Inr (JStr s)"
proof -
  obtain r tr1 where lib: "translateLibre e text base tr = (r, tr1)"
    by (cases "translateLibre e text base tr")
  show ?thesis
  proof (cases r)
    case (Inr v)
    with lib libre_loop_string [OF assms, of "endpoint_list e" "text" base None
        "tr @ [Call_translateLibre text base]" v tr1]
    obtain s where "v = JStr s" by (auto simp: translateLibre_def)
    with lib Inr show ?thesis by (simp add: libre_then_google_def)
  next
    case (Inl e1)
    obtain r2 tr2 where goo: "translateGooglePublic e text base tr1 = (r2, tr2)"
      by (cases "translateGooglePublic e text base tr1")
    show ?thesis
    proof (cases r2)
      case (Inr v)
      with goo translateGooglePublic_string [of e "text" base tr1 v tr2]
      obtain s where "v = JStr s" by auto
      with lib Inl goo Inr show ?thesis by (simp add: libre_then_google_def)
    next
      case (Inl e2)
      with lib \<open>r = Inl e1\<close> goo show ?thesis by (simp add: libre_then_google_def)
    qed
  qed
qed

lemma smartTranslate_after_primary:
  assumes "primary_passed e (preProcessText e original) code tr tr1"
  shows "smartTranslate e original code tr =
         libre_then_google e (preProcessText e original) (targetBase e code) tr1"
proof (cases "deepl_eligible e code")
  case False
  with assms show ?thesis by (simp add: primary_passed_def smartTranslate_def Let_def)
next
  case True
  obtain r tr' where dl: "translateDeepL e (preProcessText e original) code tr = (r, tr')"
    by (cases "translateDeepL e (preProcessText e original) code tr")
  with translateDeepL_trace [of e "preProcessText e original" code tr]
  have "tr' = tr @ deepl_events e (preProcessText e original) code" by simp
  with assms True dl have "tr' = tr1" and "isl r" by (simp_all add: primary_passed_def)
  with True dl show ?thesis
    by (cases r) (simp_all add: smartTranslate_def Let_def)
qed

lemma libre_then_google_returns: "\<exists>v tr'. libre_then_google e text base tr = (Inr v, tr')"
  by (auto simp: libre_then_google_def split: prod.splits sum.splits)

lemma smartTranslate_returns: "\<exists>v tr'. smartTranslate e original code tr = (Inr v, tr')"
  using libre_then_google_returns
  by (auto simp: smartTranslate_def Let_def split: prod.splits sum.splits)

lemma smartTranslate_string:
  assumes "typed_responses e"
  shows "\<exists>s. fst (smartTranslate e original code tr) = Inr (JStr s)"
proof (cases "deepl_eligible e code")
  case False
  with libre_then_google_string [OF assms] show ?thesis
    by (simp add: smartTranslate_def Let_def)
next
  case True
  obtain r tr' where dl: "translateDeepL e (preProcessText e original) code tr = (r, tr')"
    by (cases "translateDeepL e (preProcessText e original) code tr")
  show ?thesis
  proof (cases r)
    case (Inr v)
    with dl translateDeepL_string [OF assms, of "preProcessText e original" code tr v tr']
    obtain s where "v = JStr s" by auto
    with True dl Inr show ?thesis by (simp add: smartTranslate_def Let_def)
  next
    case (Inl e1)
    with True dl libre_then_google_string [OF assms] show ?thesis
      by (simp add: smartTranslate_def Let_def)
  qed
qed

section \<open>Runs in the sample environments\<close>

lemma endpoint_list_sample: "endpoint_list (sample_env key net) = [u16 ''http://a/'', u16 ''http://b'']"
  by (simp add: endpoint_list_def LIBRE_ENDPOINTS_def LIBRETRANSLATE_URLS_def sample_env_def
      or_str_def u16_def trim_def is_ws_def)

lemma sample_deepl:
  "translateDeepL (sample_env (Some (u16 ''secret'')) sample_net) (u16 ''thank you'') (u16 ''EN-US'') [] =
     (Inr (JStr (u16 ''Thank you!'')),
      [Call_translateDeepL (u16 ''thank you'') (u16 ''EN-US''),
       Fetch (DeepL_POST (u16 ''DeepL-Auth-Key secret'') (u16 ''thank you'') (u16 ''EN-US''))])"
  by (simp add: translateDeepL_def sample_env_def sample_net_def json_response_def ok_def
      authorization_def or_else_def deepl_field_def u16_def)

lemma sample_a_fails:
  "translateLibreAt (sample_env key sample_net) (u16 ''http://a/'') (u16 ''hello'') (u16 ''pt'') tr =
     (Inl (FetchError (u16 ''ECONNREFUSED'')),
      tr @ attempt_events (u16 ''http://a/'') (u16 ''hello'') (u16 ''pt''))"
  by (simp add: translateLibreAt_def sample_env_def sample_net_def libre_request_def
      strip_slashes_def attempt_events_def u16_def)

lemma sample_b_answers:
  "translateLibreAt (sample_env key sample_net) (u16 ''http://b'') (u16 ''hello'') (u16 ''pt'') tr =
     (Inr (JStr (u16 ''ola'')),
      tr @ attempt_events (u16 ''http://b'') (u16 ''hello'') (u16 ''pt''))"
  by (simp add: translateLibreAt_def sample_env_def sample_net_def libre_request_def
      strip_slashes_def attempt_events_def json_response_def ok_def toLowerCase_def
      is_ascii_def ascii_lower_def or_str_def or_else_def libre_field_def u16_def)

lemma offline_fails:
  "translateLibreAt (sample_env key offline) b text to tr =
     (Inl (FetchError (u16 ''offline'')), tr @ attempt_events b text to)"
  by (simp add: translateLibreAt_def sample_env_def offline_def fixed_net_def attempt_events_def)

lemma offline_libre:
  "translateLibre (sample_env key offline) text to tr =
     (Inl (FetchError (u16 ''offline'')),
      tr @ [Call_translateLibre text to] @ attempts [u16 ''http://a/'', u16 ''http://b''] text to)"
  by (simp add: translateLibre_def endpoint_list_sample offline_fails attempts_Cons attempts_Nil)

lemma offline_deepl:
  "translateDeepL (sample_env key offline) text target tr =
     (Inl (FetchError (u16 ''offline'')), tr @ deepl_events (sample_env key offline) text target)"
  by (simp add: translateDeepL_def sample_env_def offline_def fixed_net_def deepl_events_def)

lemma offline_google:
  "well_formed to \<Longrightarrow> well_formed text \<Longrightarrow>
   translateGooglePublic (sample_env key offline) text to tr =
     (Inl (FetchError (u16 ''offline'')),
      tr @ [Call_translateGooglePublic text to, Fetch (Google_GET to text)])"
  by (simp add: translateGooglePublic_def sample_env_def offline_def fixed_net_def)

lemma json_typed_fixed:
  "json_typed (sample_env key (fixed_net (Resolved (json_response st body)))) 
     (Resolved (json_response st body))"
  by (simp add: json_typed_def json_response_def toLowerCase_def is_ascii_def ascii_lower_def
      u16_def)

lemma fetch_fixed: "fetch (sample_env key (fixed_net r)) tr req = r"
  by (simp add: sample_env_def fixed_net_def)

lemma success_fixed: "success_json (Resolved (json_response 200 body)) body"
  by (simp add: success_json_def json_response_def ok_def)

lemma numeric_libreAt:
  "translateLibreAt (sample_env key (fixed_net (Resolved (json_response 200 numeric_answer))))
     b text to tr = (Inr (JNum (u16 ''42'')), tr @ attempt_events b text to)"
proof -
  let ?e = "sample_env key (fixed_net (Resolved (json_response 200 numeric_answer)))"
  have "or_else (libre_field numeric_answer) (JStr text) = JNum (u16 ''42'')"
    by (simp add: or_else_def libre_field_def numeric_answer_def u16_def)
  with translateLibreAt_success [of ?e tr b "text" to numeric_answer]
  show ?thesis by (simp add: fetch_fixed success_fixed json_typed_fixed)
qed

lemma sample_typed: "typed_responses (sample_env key sample_net)"
  by (auto simp: typed_responses_def sample_env_def sample_net_def typed_response_def
      json_response_def text_or_falsy_def deepl_field_def libre_field_def truthy_opt_def u16_def
      split: request.splits if_splits)

lemma fetch_google_only:
  "fetch (sample_env key (google_only body)) tr (Google_GET to text)
   = Resolved (json_response 200 body)"
  by (simp add: sample_env_def google_only_def)

lemma google_only_libreAt:
  "translateLibreAt (sample_env key (google_only body)) b text to tr =
     (Inl (FetchError (u16 ''ECONNREFUSED'')), tr @ attempt_events b text to)"
  by (simp add: translateLibreAt_def sample_env_def google_only_def libre_request_def
      attempt_events_def)

lemma google_only_libre:
  "translateLibre (sample_env key (google_only body)) text to tr =
     (Inl (FetchError (u16 ''ECONNREFUSED'')),
      tr @ [Call_translateLibre text to] @ attempts [u16 ''http://a/'', u16 ''http://b''] text to)"
  by (simp add: translateLibre_def endpoint_list_sample google_only_libreAt attempts_Cons
      attempts_Nil)

lemma sample_google_json:
  "success_json (fetch (sample_env key sample_net) tr (Google_GET to text))
     (JArr [JArr [JArr [JStr (u16 ''Guten''), JStr (u16 ''good'')], JArr [],
                  JArr [JStr []], JArr [JStr (u16 ''Tag'')]],
            JNull, JStr (u16 ''en'')])"
  by (simp add: success_json_def sample_env_def sample_net_def json_response_def ok_def)

lemma sample_chunks:
  "chunks_of [JArr [JStr (u16 ''Guten''), JStr (u16 ''good'')], JArr [],
              JArr [JStr []], JArr [JStr (u16 ''Tag'')]]
   = map JStr [u16 ''Guten'', u16 ''Tag'']"
  by (simp add: chunks_of_def List.map_filter_simps u16_def)

lemma plain_libreAt:
  "translateLibreAt (sample_env key (fixed_net (Resolved plain_response))) b text to tr =
     (Inl (LibreContentType (u16 ''text/plain'') b (u16 ''{}'')), tr @ attempt_events b text to)"
  by (simp add: translateLibreAt_def fetch_fixed plain_response_def ok_def toLowerCase_def
      is_ascii_def ascii_lower_def or_str_def bodyTxt_def attempt_events_def Let_def u16_def)

lemma plain_google:
  "well_formed to \<Longrightarrow> well_formed text \<Longrightarrow>
   translateGooglePublic (sample_env key (fixed_net (Resolved plain_response))) text to tr =
     (Inr (JStr text), tr @ [Call_translateGooglePublic text to, Fetch (Google_GET to text)])"
  by (simp add: translateGooglePublic_def fetch_fixed plain_response_def ok_def or_else_def
      chunks_of_def List.map_filter_simps or_str_def join_js_def Let_def)

section \<open>Total availability\<close>

text \<open>
  C1, as amended. The orchestrator never throws: every run returns a value. When the
  primary tier is skipped or throws, and then \<open>translateLibre\<close> and
  \<open>translateGooglePublic\<close> both throw, the value is the normalized original text. The value
  is a string in every environment whose responses carry a string, or nothing truthy, in
  their translated-text fields. Without that condition it need not be one: the adapters
  return a truthy field as it is, and on the LibreTranslate answer
  \<open>{"translatedText": 42}\<close> the orchestrator returns the number.
\<close>

theorem smartTranslate_total:
  "(\<exists>v tr'. smartTranslate e original code tr = (Inr v, tr'))
   \<and> (primary_passed e (preProcessText e original) code tr tr1
        \<and> translateLibre e (preProcessText e original) (targetBase e code) tr1 = (Inl err2, tr2)
        \<and> translateGooglePublic e (preProcessText e original) (targetBase e code) tr2
            = (Inl err3, tr3)
      \<longrightarrow> smartTranslate e original code tr = (Inr (JStr (preProcessText e original)), tr3))
   \<and> (typed_responses e \<longrightarrow> (\<exists>s. fst (smartTranslate e original code tr) = Inr (JStr s)))"
proof (intro conjI impI)
  show "\<exists>v tr'. smartTranslate e original code tr = (Inr v, tr')"
    by (rule smartTranslate_returns)
next
  assume h: "primary_passed e (preProcessText e original) code tr tr1
        \<and> translateLibre e (preProcessText e original) (targetBase e code) tr1 = (Inl err2, tr2)
        \<and> translateGooglePublic e (preProcessText e original) (targetBase e code) tr2
            = (Inl err3, tr3)"
  then have "smartTranslate e original code tr =
      libre_then_google e (preProcessText e original) (targetBase e code) tr1"
    by (simp add: smartTranslate_after_primary)
  with h show "smartTranslate e original code tr = (Inr (JStr (preProcessText e original)), tr3)"
    by (simp add: libre_then_google_def)
next
  assume "typed_responses e"
  then show "\<exists>s. fst (smartTranslate e original code tr) = Inr (JStr s)"
    by (rule smartTranslate_string)
qed

theorem smartTranslate_string_counterexample:
  "fst (smartTranslate (sample_env None (fixed_net (Resolved (json_response 200 numeric_answer))))
          (u16 ''hi'') (u16 ''FR'') []) = Inr (JNum (u16 ''42''))"
  by (simp add: smartTranslate_def Let_def no_key_not_eligible libre_then_google_def
      translateLibre_def endpoint_list_sample numeric_libreAt)

theorem smartTranslate_total_witness:
  "smartTranslate (sample_env (Some (u16 ''secret'')) offline) (u16 ''hi'') (u16 ''FR'') [] =
     (Inr (JStr (u16 ''hi'')),
      [Call_translateDeepL (u16 ''hi'') (u16 ''FR''),
       Fetch (DeepL_POST (u16 ''DeepL-Auth-Key secret'') (u16 ''hi'') (u16 ''FR'')),
       Call_translateLibre (u16 ''hi'') (u16 ''fr''),
       Call_translateLibreAt (u16 ''http://a/'') (u16 ''hi'') (u16 ''fr''),
       Fetch (Libre_POST (u16 ''http://a/translate'') (u16 ''hi'') (u16 ''fr'')),
       Call_translateLibreAt (u16 ''http://b'') (u16 ''hi'') (u16 ''fr''),
       Fetch (Libre_POST (u16 ''http://b/translate'') (u16 ''hi'') (u16 ''fr'')),
       Call_translateGooglePublic (u16 ''hi'') (u16 ''fr''),
       Fetch (Google_GET (u16 ''fr'') (u16 ''hi''))])
   \<and> (\<exists>s. fst (smartTranslate (sample_env None sample_net) (u16 ''hi'') (u16 ''FR'') [])
            = Inr (JStr s))"
proof -
  let ?o = "sample_env (Some (u16 ''secret'')) offline"
  let ?t1 = "[] @ deepl_events ?o (u16 ''hi'') (u16 ''FR'')"
  let ?t2 = "?t1 @ [Call_translateLibre (u16 ''hi'') (u16 ''fr'')]
             @ attempts [u16 ''http://a/'', u16 ''http://b''] (u16 ''hi'') (u16 ''fr'')"
  let ?t3 = "?t2 @ [Call_translateGooglePublic (u16 ''hi'') (u16 ''fr''),
                    Fetch (Google_GET (u16 ''fr'') (u16 ''hi''))]"
  have slash: "strip_slashes (u16 ''http://a/'') @ u16 ''/translate'' = u16 ''http://a/translate''"
    "strip_slashes (u16 ''http://b'') @ u16 ''/translate'' = u16 ''http://b/translate''"
    by (simp_all add: strip_slashes_def u16_def)
  have auth: "authorization ?o = u16 ''DeepL-Auth-Key secret''"
    by (simp add: authorization_def sample_env_def u16_def)
  have "primary_passed ?o (preProcessText ?o (u16 ''hi'')) (u16 ''FR'') [] ?t1
      \<and> translateLibre ?o (preProcessText ?o (u16 ''hi'')) (targetBase ?o (u16 ''FR'')) ?t1
          = (Inl (FetchError (u16 ''offline'')), ?t2)
      \<and> translateGooglePublic ?o (preProcessText ?o (u16 ''hi'')) (targetBase ?o (u16 ''FR'')) ?t2
          = (Inl (FetchError (u16 ''offline'')), ?t3)"
    by (simp add: hi_miss targetBase_FR primary_passed_def FR_eligible offline_deepl
        offline_libre offline_google wf_hi_fr)
  with smartTranslate_total [of ?o "u16 ''hi''" "u16 ''FR''" "[]" ?t1
      "FetchError (u16 ''offline'')" ?t2 "FetchError (u16 ''offline'')" ?t3]
  have "smartTranslate ?o (u16 ''hi'') (u16 ''FR'') [] =
      (Inr (JStr (preProcessText ?o (u16 ''hi''))), ?t3)"
    by blast
  moreover
  from smartTranslate_total [of "sample_env None sample_net" "u16 ''hi''" "u16 ''FR''" "[]"
      "[]" "BodyError" "[]" "BodyError" "[]"] sample_typed [of None]
  have "\<exists>s. fst (smartTranslate (sample_env None sample_net) (u16 ''hi'') (u16 ''FR'') [])
            = Inr (JStr s)"
    by blast
  ultimately show ?thesis
    by (simp add: hi_miss deepl_events_def auth attempts_Cons attempts_Nil attempt_events_def
        libre_request_def slash)
qed

section \<open>Answers without a translation\<close>

text \<open>
  C2, as amended. A tier that answers with a success status and a body that parses as
  JSON, declared as JSON by its content type in the pooled tier, but without the
  translated-text field ends the run with the normalized text. For the primary tier the
  run then holds the DeepL call and its request only. For the pooled tier, reached with the
  primary tier skipped or failed, at an endpoint \<open>b\<close> whose predecessors in the pool all
  threw, the run ends with the try at \<open>b\<close>: no later endpoint and no call of
  \<open>translateGooglePublic\<close>. For the last resort, reached after \<open>translateLibre\<close> threw, an
  answer without a first element gives the normalized text as the adapter's own result.
  Without the content type the claim fails: the counterexample below is an answer with
  status 200 and the body \<open>{}\<close>, sent as \<open>text/plain\<close>, on which \<open>translateLibreAt\<close> throws
  and the run goes on to the next endpoint and to the last resort.
\<close>

theorem malformed_success_degrades:
  "(deepl_eligible e code
      \<and> success_json (fetch e (tr @ [Call_translateDeepL (preProcessText e original) code])
                        (DeepL_POST (authorization e) (preProcessText e original) code)) data
      \<and> deepl_field data = None
    \<longrightarrow> translateDeepL e (preProcessText e original) code tr =
          (Inr (JStr (preProcessText e original)),
           tr @ deepl_events e (preProcessText e original) code)
        \<and> smartTranslate e original code tr =
          (Inr (JStr (preProcessText e original)),
           tr @ deepl_events e (preProcessText e original) code))
   \<and> (primary_passed e (preProcessText e original) code tr tr1
      \<and> trl = tr1 @ [Call_translateLibre (preProcessText e original) (targetBase e code)]
      \<and> endpoint_list e = pre @ b # post
      \<and> all_fail e pre (preProcessText e original) (targetBase e code) trl
      \<and> tra = trl @ attempts pre (preProcessText e original) (targetBase e code)
      \<and> r = fetch e (tra @ [Call_translateLibreAt b (preProcessText e original) (targetBase e code)])
                (libre_request b (preProcessText e original) (targetBase e code))
      \<and> success_json r data \<and> json_typed e r \<and> libre_field data = None
    \<longrightarrow> translateLibreAt e b (preProcessText e original) (targetBase e code) tra =
          (Inr (JStr (preProcessText e original)),
           tra @ attempt_events b (preProcessText e original) (targetBase e code))
        \<and> smartTranslate e original code tr =
          (Inr (JStr (preProcessText e original)),
           tra @ attempt_events b (preProcessText e original) (targetBase e code)))
   \<and> (primary_passed e (preProcessText e original) code tr tr1
      \<and> translateLibre e (preProcessText e original) (targetBase e code) tr1 = (Inl err, tr2)
      \<and> well_formed (targetBase e code) \<and> well_formed (preProcessText e original)
      \<and> success_json
           (fetch e (tr2 @ [Call_translateGooglePublic (preProcessText e original) (targetBase e code)])
              (Google_GET (targetBase e code) (preProcessText e original))) data
      \<and> index0 (Some data) = None
    \<longrightarrow> translateGooglePublic e (preProcessText e original) (targetBase e code) tr2 =
          (Inr (JStr (preProcessText e original)),
           tr2 @ [Call_translateGooglePublic (preProcessText e original) (targetBase e code),
                  Fetch (Google_GET (targetBase e code) (preProcessText e original))])
        \<and> smartTranslate e original code tr =
          (Inr (JStr (preProcessText e original)),
           tr2 @ [Call_translateGooglePublic (preProcessText e original) (targetBase e code),
                  Fetch (Google_GET (targetBase e code) (preProcessText e original))]))"
  (is "(?H1 \<longrightarrow> ?C1) \<and> (?H2 \<longrightarrow> ?C2) \<and> (?H3 \<longrightarrow> ?C3)")
proof -
  let ?t = "preProcessText e original" and ?base = "targetBase e code"
  have one: ?C1 if ?H1
  proof -
    from that have "translateDeepL e ?t code tr = (Inr (JStr ?t), tr @ deepl_events e ?t code)"
      using translateDeepL_success [of e tr ?t code data] by (simp add: or_else_def)
    moreover from this that have "smartTranslate e original code tr =
        (Inr (JStr ?t), tr @ deepl_events e ?t code)"
      by (simp add: smartTranslate_def Let_def)
    ultimately show ?thesis by simp
  qed
  have two: ?C2 if ?H2
  proof -
    from that have pp: "primary_passed e ?t code tr tr1"
      and trl: "trl = tr1 @ [Call_translateLibre ?t ?base]"
      and el: "endpoint_list e = pre @ b # post"
      and af: "all_fail e pre ?t ?base trl"
      and tra: "tra = trl @ attempts pre ?t ?base"
      and r: "r = fetch e (tra @ [Call_translateLibreAt b ?t ?base]) (libre_request b ?t ?base)"
      and ok: "success_json r data" "json_typed e r" "libre_field data = None"
      by blast+
    from ok r have at: "translateLibreAt e b ?t ?base tra =
        (Inr (JStr ?t), tra @ attempt_events b ?t ?base)"
      using translateLibreAt_success [of e tra b ?t ?base data] by (simp add: or_else_def)
    from at tra have "translateLibreAt e b ?t ?base (trl @ attempts pre ?t ?base) =
        (Inr (JStr ?t), tra @ attempt_events b ?t ?base)"
      by simp
    from libre_loop_first_success [OF af this, of post None] el trl
    have "translateLibre e ?t ?base tr1 = (Inr (JStr ?t), tra @ attempt_events b ?t ?base)"
      by (simp add: translateLibre_def)
    with smartTranslate_after_primary [OF pp]
    have "smartTranslate e original code tr = (Inr (JStr ?t), tra @ attempt_events b ?t ?base)"
      by (simp add: libre_then_google_def)
    with at show ?thesis by simp
  qed
  have three: ?C3 if ?H3
  proof -
    from that have pp: "primary_passed e ?t code tr tr1"
      and lib: "translateLibre e ?t ?base tr1 = (Inl err, tr2)"
      and wf: "well_formed ?base" "well_formed ?t"
      and ok: "success_json (fetch e (tr2 @ [Call_translateGooglePublic ?t ?base])
                 (Google_GET ?base ?t)) data"
      and miss: "index0 (Some data) = None"
      by blast+
    from miss have "or_else (index0 (Some data)) (JArr []) = JArr []"
      by (simp add: or_else_def)
    from translateGooglePublic_success [OF wf ok this]
    have goo: "translateGooglePublic e ?t ?base tr2 =
        (Inr (JStr ?t), tr2 @ [Call_translateGooglePublic ?t ?base, Fetch (Google_GET ?base ?t)])"
      by (simp add: chunks_of_def List.map_filter_simps or_str_def join_js_def)
    with smartTranslate_after_primary [OF pp] lib
    have "smartTranslate e original code tr =
        (Inr (JStr ?t), tr2 @ [Call_translateGooglePublic ?t ?base, Fetch (Google_GET ?base ?t)])"
      by (simp add: libre_then_google_def)
    with goo show ?thesis by simp
  qed
  from one two three show ?thesis by blast
qed

theorem malformed_success_counterexample:
  "ok plain_response \<and> json_body plain_response = Some (JObj [])
   \<and> libre_field (JObj []) = None
   \<and> translateLibreAt (sample_env None (fixed_net (Resolved plain_response)))
        (u16 ''http://a/'') (u16 ''hi'') (u16 ''fr'') [Call_translateLibre (u16 ''hi'') (u16 ''fr'')] =
      (Inl (LibreContentType (u16 ''text/plain'') (u16 ''http://a/'') (u16 ''{}'')),
       [Call_translateLibre (u16 ''hi'') (u16 ''fr''),
        Call_translateLibreAt (u16 ''http://a/'') (u16 ''hi'') (u16 ''fr''),
        Fetch (Libre_POST (u16 ''http://a/translate'') (u16 ''hi'') (u16 ''fr''))])
   \<and> smartTranslate (sample_env None (fixed_net (Resolved plain_response)))
        (u16 ''hi'') (u16 ''FR'') [] =
      (Inr (JStr (u16 ''hi'')),
       [Call_translateLibre (u16 ''hi'') (u16 ''fr''),
        Call_translateLibreAt (u16 ''http://a/'') (u16 ''hi'') (u16 ''fr''),
        Fetch (Libre_POST (u16 ''http://a/translate'') (u16 ''hi'') (u16 ''fr'')),
        Call_translateLibreAt (u16 ''http://b'') (u16 ''hi'') (u16 ''fr''),
        Fetch (Libre_POST (u16 ''http://b/translate'') (u16 ''hi'') (u16 ''fr'')),
        Call_translateGooglePublic (u16 ''hi'') (u16 ''fr''),
        Fetch (Google_GET (u16 ''fr'') (u16 ''hi''))])"
proof -
  have slash: "strip_slashes (u16 ''http://a/'') @ u16 ''/translate'' = u16 ''http://a/translate''"
    "strip_slashes (u16 ''http://b'') @ u16 ''/translate'' = u16 ''http://b/translate''"
    by (simp_all add: strip_slashes_def u16_def)
  have "ok plain_response \<and> json_body plain_response = Some (JObj [])
      \<and> libre_field (JObj []) = None"
    by (simp add: plain_response_def ok_def libre_field_def)
  moreover have "translateLibreAt (sample_env None (fixed_net (Resolved plain_response)))
        (u16 ''http://a/'') (u16 ''hi'') (u16 ''fr'') [Call_translateLibre (u16 ''hi'') (u16 ''fr'')] =
      (Inl (LibreContentType (u16 ''text/plain'') (u16 ''http://a/'') (u16 ''{}'')),
       [Call_translateLibre (u16 ''hi'') (u16 ''fr''),
        Call_translateLibreAt (u16 ''http://a/'') (u16 ''hi'') (u16 ''fr''),
        Fetch (Libre_POST (u16 ''http://a/translate'') (u16 ''hi'') (u16 ''fr''))])"
    by (simp add: plain_libreAt attempt_events_def libre_request_def slash)
  moreover have "smartTranslate (sample_env None (fixed_net (Resolved plain_response)))
        (u16 ''hi'') (u16 ''FR'') [] =
      (Inr (JStr (u16 ''hi'')),
       [Call_translateLibre (u16 ''hi'') (u16 ''fr''),
        Call_translateLibreAt (u16 ''http://a/'') (u16 ''hi'') (u16 ''fr''),
        Fetch (Libre_POST (u16 ''http://a/translate'') (u16 ''hi'') (u16 ''fr'')),
        Call_translateLibreAt (u16 ''http://b'') (u16 ''hi'') (u16 ''fr''),
        Fetch (Libre_POST (u16 ''http://b/translate'') (u16 ''hi'') (u16 ''fr'')),
        Call_translateGooglePublic (u16 ''hi'') (u16 ''fr''),
        Fetch (Google_GET (u16 ''fr'') (u16 ''hi''))])"
    by (simp add: smartTranslate_def Let_def no_key_not_eligible hi_miss targetBase_FR
        libre_then_google_def translateLibre_def endpoint_list_sample plain_libreAt
        plain_google wf_hi_fr attempt_events_def libre_request_def slash)
  ultimately show ?thesis by blast
qed

theorem malformed_success_degrades_witness:
  "smartTranslate (sample_env (Some (u16 ''secret'')) (fixed_net (Resolved (json_response 200 (JObj [])))))
     (u16 ''hi'') (u16 ''FR'') [] =
     (Inr (JStr (u16 ''hi'')),
      [Call_translateDeepL (u16 ''hi'') (u16 ''FR''),
       Fetch (DeepL_POST (u16 ''DeepL-Auth-Key secret'') (u16 ''hi'') (u16 ''FR''))])
   \<and> smartTranslate (sample_env None (fixed_net (Resolved (json_response 200 (JObj [])))))
       (u16 ''hi'') (u16 ''FR'') [] =
     (Inr (JStr (u16 ''hi'')),
      [Call_translateLibre (u16 ''hi'') (u16 ''fr''),
       Call_translateLibreAt (u16 ''http://a/'') (u16 ''hi'') (u16 ''fr''),
       Fetch (Libre_POST (u16 ''http://a/translate'') (u16 ''hi'') (u16 ''fr''))])
   \<and> smartTranslate (sample_env None (google_only JNull)) (u16 ''hi'') (u16 ''FR'') [] =
     (Inr (JStr (u16 ''hi'')),
      [Call_translateLibre (u16 ''hi'') (u16 ''fr''),
       Call_translateLibreAt (u16 ''http://a/'') (u16 ''hi'') (u16 ''fr''),
       Fetch (Libre_POST (u16 ''http://a/translate'') (u16 ''hi'') (u16 ''fr'')),
       Call_translateLibreAt (u16 ''http://b'') (u16 ''hi'') (u16 ''fr''),
       Fetch (Libre_POST (u16 ''http://b/translate'') (u16 ''hi'') (u16 ''fr'')),
       Call_translateGooglePublic (u16 ''hi'') (u16 ''fr''),
       Fetch (Google_GET (u16 ''fr'') (u16 ''hi''))])"
proof -
  let ?r = "Resolved (json_response 200 (JObj []))"
  let ?e1 = "sample_env (Some (u16 ''secret'')) (fixed_net ?r)"
  let ?e2 = "sample_env None (fixed_net ?r)"
  let ?e3 = "sample_env None (google_only JNull)"
  let ?hi = "u16 ''hi''" and ?fr = "u16 ''fr''" and ?FR = "u16 ''FR''"
  let ?a = "u16 ''http://a/''" and ?b = "u16 ''http://b''"
  let ?t2 = "[] @ [Call_translateLibre ?hi ?fr] @ attempts [?a, ?b] ?hi ?fr"
  have slash: "strip_slashes ?a @ u16 ''/translate'' = u16 ''http://a/translate''"
    "strip_slashes ?b @ u16 ''/translate'' = u16 ''http://b/translate''"
    by (simp_all add: strip_slashes_def u16_def)
  have auth: "authorization ?e1 = u16 ''DeepL-Auth-Key secret''"
    by (simp add: authorization_def sample_env_def u16_def)
  have h1: "deepl_eligible ?e1 ?FR
      \<and> success_json (fetch ?e1 ([] @ [Call_translateDeepL (preProcessText ?e1 ?hi) ?FR])
                        (DeepL_POST (authorization ?e1) (preProcessText ?e1 ?hi) ?FR)) (JObj [])
      \<and> deepl_field (JObj []) = None"
    by (simp add: FR_eligible fetch_fixed success_fixed deepl_field_def)
  have h2: "primary_passed ?e2 (preProcessText ?e2 ?hi) ?FR [] []
      \<and> [Call_translateLibre ?hi ?fr]
          = [] @ [Call_translateLibre (preProcessText ?e2 ?hi) (targetBase ?e2 ?FR)]
      \<and> endpoint_list ?e2 = [] @ ?a # [?b]
      \<and> all_fail ?e2 [] (preProcessText ?e2 ?hi) (targetBase ?e2 ?FR) [Call_translateLibre ?hi ?fr]
      \<and> [Call_translateLibre ?hi ?fr]
          = [Call_translateLibre ?hi ?fr]
            @ attempts [] (preProcessText ?e2 ?hi) (targetBase ?e2 ?FR)
      \<and> ?r = fetch ?e2 ([Call_translateLibre ?hi ?fr]
                          @ [Call_translateLibreAt ?a (preProcessText ?e2 ?hi) (targetBase ?e2 ?FR)])
                (libre_request ?a (preProcessText ?e2 ?hi) (targetBase ?e2 ?FR))
      \<and> success_json ?r (JObj []) \<and> json_typed ?e2 ?r \<and> libre_field (JObj []) = None"
    by (simp add: hi_miss targetBase_FR primary_passed_def no_key_not_eligible
        endpoint_list_sample attempts_Nil fetch_fixed success_fixed json_typed_fixed
        libre_field_def)
  have h3: "primary_passed ?e3 (preProcessText ?e3 ?hi) ?FR [] []
      \<and> translateLibre ?e3 (preProcessText ?e3 ?hi) (targetBase ?e3 ?FR) []
          = (Inl (FetchError (u16 ''ECONNREFUSED'')), ?t2)
      \<and> well_formed (targetBase ?e3 ?FR) \<and> well_formed (preProcessText ?e3 ?hi)
      \<and> success_json
           (fetch ?e3 (?t2 @ [Call_translateGooglePublic (preProcessText ?e3 ?hi) (targetBase ?e3 ?FR)])
              (Google_GET (targetBase ?e3 ?FR) (preProcessText ?e3 ?hi))) JNull
      \<and> index0 (Some JNull) = None"
    by (simp add: hi_miss targetBase_FR primary_passed_def no_key_not_eligible
        google_only_libre wf_hi_fr fetch_google_only success_fixed)
  from h1 malformed_success_degrades [of ?e1 ?FR "[]" ?hi "JObj []"]
  have one: "smartTranslate ?e1 ?hi ?FR [] =
      (Inr (JStr (preProcessText ?e1 ?hi)), [] @ deepl_events ?e1 (preProcessText ?e1 ?hi) ?FR)"
    by blast
  from h2 malformed_success_degrades [of ?e2 ?FR "[]" ?hi "JObj []" "[]"
      "[Call_translateLibre ?hi ?fr]" "[]" ?a "[?b]" "[Call_translateLibre ?hi ?fr]" ?r]
  have two: "smartTranslate ?e2 ?hi ?FR [] =
      (Inr (JStr (preProcessText ?e2 ?hi)),
       [Call_translateLibre ?hi ?fr]
       @ attempt_events ?a (preProcessText ?e2 ?hi) (targetBase ?e2 ?FR))"
    by blast
  from h3 malformed_success_degrades [of ?e3 ?FR "[]" ?hi JNull "[]" _ _ _ _ _ _
      "FetchError (u16 ''ECONNREFUSED'')" ?t2]
  have three: "smartTranslate ?e3 ?hi ?FR [] =
      (Inr (JStr (preProcessText ?e3 ?hi)),
       ?t2 @ [Call_translateGooglePublic (preProcessText ?e3 ?hi) (targetBase ?e3 ?FR),
              Fetch (Google_GET (targetBase ?e3 ?FR) (preProcessText ?e3 ?hi))])"
    by blast
  from one two three show ?thesis
    by (simp add: hi_miss targetBase_FR deepl_events_def auth attempts_Cons attempts_Nil
        attempt_events_def libre_request_def slash)
qed

text \<open>
  C10. The empty string is falsy. In the primary and the pooled adapter a successful
  answer whose translated-text field is falsy, the empty string as well as a missing field,
  gives the adapter's input text; in the last resort a successful answer whose chunks join
  to the empty string gives the input text too.
\<close>

theorem falsy_translation_degrades:
  "\<not> truthy_opt (Some (JStr []))
   \<and> (success_json (fetch e (tr @ [Call_translateDeepL text target])
                      (DeepL_POST (authorization e) text target)) data
        \<and> \<not> truthy_opt (deepl_field data)
      \<longrightarrow> translateDeepL e text target tr = (Inr (JStr text), tr @ deepl_events e text target))
   \<and> (success_json (fetch e (tr @ [Call_translateLibreAt b text to]) (libre_request b text to)) data
        \<and> json_typed e (fetch e (tr @ [Call_translateLibreAt b text to]) (libre_request b text to))
        \<and> \<not> truthy_opt (libre_field data)
      \<longrightarrow> translateLibreAt e b text to tr = (Inr (JStr text), tr @ attempt_events b text to))
   \<and> (well_formed to \<and> well_formed text
        \<and> success_json (fetch e (tr @ [Call_translateGooglePublic text to]) (Google_GET to text)) data
        \<and> or_else (index0 (Some data)) (JArr []) = JArr segs
        \<and> join_js (u16 '' '') (chunks_of segs) = Some []
      \<longrightarrow> translateGooglePublic e text to tr =
            (Inr (JStr text),
             tr @ [Call_translateGooglePublic text to, Fetch (Google_GET to text)]))"
proof (intro conjI impI)
  show "\<not> truthy_opt (Some (JStr []))" by (simp add: truthy_opt_def)
next
  assume "success_json (fetch e (tr @ [Call_translateDeepL text target])
                      (DeepL_POST (authorization e) text target)) data
        \<and> \<not> truthy_opt (deepl_field data)"
  then show "translateDeepL e text target tr = (Inr (JStr text), tr @ deepl_events e text target)"
    using translateDeepL_success [of e tr "text" target data] by (simp add: or_else_falsy)
next
  assume "success_json (fetch e (tr @ [Call_translateLibreAt b text to]) (libre_request b text to)) data
        \<and> json_typed e (fetch e (tr @ [Call_translateLibreAt b text to]) (libre_request b text to))
        \<and> \<not> truthy_opt (libre_field data)"
  then show "translateLibreAt e b text to tr = (Inr (JStr text), tr @ attempt_events b text to)"
    using translateLibreAt_success [of e tr b "text" to data] by (simp add: or_else_falsy)
next
  assume "well_formed to \<and> well_formed text
        \<and> success_json (fetch e (tr @ [Call_translateGooglePublic text to]) (Google_GET to text)) data
        \<and> or_else (index0 (Some data)) (JArr []) = JArr segs
        \<and> join_js (u16 '' '') (chunks_of segs) = Some []"
  then show "translateGooglePublic e text to tr =
            (Inr (JStr text),
             tr @ [Call_translateGooglePublic text to, Fetch (Google_GET to text)])"
    using translateGooglePublic_success [of to "text" e tr data segs] by (simp add: or_str_def)
qed

theorem falsy_translation_degrades_witness:
  "translateDeepL (sample_env None (fixed_net (Resolved (json_response 200 empty_answer))))
     (u16 ''hi'') (u16 ''FR'') [] =
     (Inr (JStr (u16 ''hi'')),
      [Call_translateDeepL (u16 ''hi'') (u16 ''FR''),
       Fetch (DeepL_POST (u16 ''DeepL-Auth-Key undefined'') (u16 ''hi'') (u16 ''FR''))])
   \<and> translateLibreAt (sample_env None (fixed_net (Resolved (json_response 200 empty_answer))))
       (u16 ''http://b'') (u16 ''hi'') (u16 ''fr'') [] =
     (Inr (JStr (u16 ''hi'')),
      [Call_translateLibreAt (u16 ''http://b'') (u16 ''hi'') (u16 ''fr''),
       Fetch (Libre_POST (u16 ''http://b/translate'') (u16 ''hi'') (u16 ''fr''))])
   \<and> translateGooglePublic (sample_env None (google_only (JArr [JArr [JArr [JStr []]]])))
       (u16 ''hi'') (u16 ''fr'') [] =
     (Inr (JStr (u16 ''hi'')),
      [Call_translateGooglePublic (u16 ''hi'') (u16 ''fr''),
       Fetch (Google_GET (u16 ''fr'') (u16 ''hi''))])"
proof -
  let ?e = "sample_env None (fixed_net (Resolved (json_response 200 empty_answer)))"
  let ?g = "sample_env None (google_only (JArr [JArr [JArr [JStr []]]]))"
  have auth: "authorization ?e = u16 ''DeepL-Auth-Key undefined''"
    by (simp add: authorization_def sample_env_def u16_def)
  have slash: "strip_slashes (u16 ''http://b'') @ u16 ''/translate'' = u16 ''http://b/translate''"
    by (simp add: strip_slashes_def u16_def)
  have d: "success_json (fetch ?e ([] @ [Call_translateDeepL (u16 ''hi'') (u16 ''FR'')])
                      (DeepL_POST (authorization ?e) (u16 ''hi'') (u16 ''FR''))) empty_answer
        \<and> \<not> truthy_opt (deepl_field empty_answer)"
    by (simp add: fetch_fixed success_fixed deepl_field_def empty_answer_def truthy_opt_def u16_def)
  have l: "success_json (fetch ?e ([] @ [Call_translateLibreAt (u16 ''http://b'') (u16 ''hi'') (u16 ''fr'')])
                      (libre_request (u16 ''http://b'') (u16 ''hi'') (u16 ''fr''))) empty_answer
        \<and> json_typed ?e (fetch ?e ([] @ [Call_translateLibreAt (u16 ''http://b'') (u16 ''hi'') (u16 ''fr'')])
                      (libre_request (u16 ''http://b'') (u16 ''hi'') (u16 ''fr'')))
        \<and> \<not> truthy_opt (libre_field empty_answer)"
    by (simp add: fetch_fixed success_fixed json_typed_fixed libre_field_def empty_answer_def
        truthy_opt_def u16_def)
  have g: "well_formed (u16 ''fr'') \<and> well_formed (u16 ''hi'')
        \<and> success_json (fetch ?g ([] @ [Call_translateGooglePublic (u16 ''hi'') (u16 ''fr'')])
                         (Google_GET (u16 ''fr'') (u16 ''hi''))) (JArr [JArr [JArr [JStr []]]])
        \<and> or_else (index0 (Some (JArr [JArr [JArr [JStr []]]]))) (JArr []) = JArr [JArr [JStr []]]
        \<and> join_js (u16 '' '') (chunks_of [JArr [JStr []]]) = Some []"
    by (simp add: wf_hi_fr fetch_google_only success_fixed or_else_def chunks_of_def
        List.map_filter_simps join_js_def)
  from d falsy_translation_degrades [of ?e "[]" "u16 ''hi''" "u16 ''FR''" empty_answer]
  have one: "translateDeepL ?e (u16 ''hi'') (u16 ''FR'') [] =
      (Inr (JStr (u16 ''hi'')), [] @ deepl_events ?e (u16 ''hi'') (u16 ''FR''))"
    by blast
  from l falsy_translation_degrades [of ?e "[]" "u16 ''hi''" _ empty_answer "u16 ''http://b''" "u16 ''fr''"]
  have two: "translateLibreAt ?e (u16 ''http://b'') (u16 ''hi'') (u16 ''fr'') [] =
      (Inr (JStr (u16 ''hi'')), [] @ attempt_events (u16 ''http://b'') (u16 ''hi'') (u16 ''fr''))"
    by blast
  from g falsy_translation_degrades [of ?g "[]" "u16 ''hi''" _ "JArr [JArr [JArr [JStr []]]]" _
      "u16 ''fr''" "[JArr [JStr []]]"]
  have three: "translateGooglePublic ?g (u16 ''hi'') (u16 ''fr'') [] =
      (Inr (JStr (u16 ''hi'')),
       [] @ [Call_translateGooglePublic (u16 ''hi'') (u16 ''fr''),
             Fetch (Google_GET (u16 ''fr'') (u16 ''hi''))])"
    by blast
  from one two three show ?thesis
    by (simp add: deepl_events_def auth attempt_events_def libre_request_def slash)
qed

section \<open>Precedence and fallback\<close>

text \<open>
  C3. With a non-empty DeepL key in the environment and the uppercased code in the
  supported set, a successful call of the primary adapter ends the run: the orchestrator
  returns that adapter's result, and the run has added the call of \<open>translateDeepL\<close> and
  its one request and nothing else, so neither \<open>translateLibre\<close> nor
  \<open>translateGooglePublic\<close> has been called.
\<close>

theorem strict_precedence:
  assumes "env_DEEPL_KEY e = Some k" and "k \<noteq> []"
    and "toUpperCase e code \<in> set DEEPL_SUPPORTED_TARGETS"
    and "translateDeepL e (preProcessText e original) code tr = (Inr v, tr')"
  shows "smartTranslate e original code tr = (Inr v, tr')
         \<and> tr' = tr @ [Call_translateDeepL (preProcessText e original) code,
                        Fetch (DeepL_POST (authorization e) (preProcessText e original) code)]"
proof -
  from assms(1-3) have "deepl_eligible e code" by (simp add: deepl_eligible_def)
  with assms(4) have "smartTranslate e original code tr = (Inr v, tr')"
    by (simp add: smartTranslate_def Let_def)
  moreover from translateDeepL_trace [of e "preProcessText e original" code tr] assms(4)
  have "tr' = tr @ deepl_events e (preProcessText e original) code" by simp
  ultimately show ?thesis by (simp add: deepl_events_def)
qed

theorem strict_precedence_witness:
  "smartTranslate (sample_env (Some (u16 ''secret'')) sample_net)
     [0x3042, 0x308A, 0x304C, 0x3068, 0x3046] (u16 ''EN-US'') [] =
   (Inr (JStr (u16 ''Thank you!'')),
    [Call_translateDeepL (u16 ''thank you'') (u16 ''EN-US''),
     Fetch (DeepL_POST (u16 ''DeepL-Auth-Key secret'') (u16 ''thank you'') (u16 ''EN-US''))])"
proof -
  let ?e = "sample_env (Some (u16 ''secret'')) sample_net"
  have k: "env_DEEPL_KEY ?e = Some (u16 ''secret'')" by (simp add: sample_env_def)
  have ne: "u16 ''secret'' \<noteq> []" by (simp add: u16_def)
  have sup: "toUpperCase ?e (u16 ''EN-US'') \<in> set DEEPL_SUPPORTED_TARGETS"
    by (simp only: upper_EN_US EN_US_supported)
  have run: "translateDeepL ?e (preProcessText ?e [0x3042, 0x308A, 0x304C, 0x3068, 0x3046])
               (u16 ''EN-US'') [] =
             (Inr (JStr (u16 ''Thank you!'')),
              [Call_translateDeepL (u16 ''thank you'') (u16 ''EN-US''),
               Fetch (DeepL_POST (u16 ''DeepL-Auth-Key secret'') (u16 ''thank you'') (u16 ''EN-US''))])"
    by (simp only: arigato sample_deepl)
  from strict_precedence [OF k ne sup run] show ?thesis by simp
qed

text \<open>
  C5. For the target \<open>ZH-TW\<close> the primary tier is never eligible, whatever the key: the
  first thing the orchestrator does is call \<open>translateLibre\<close> with the normalized text and
  the base code \<open>zh\<close>, and nothing the run does afterwards is a call of \<open>translateDeepL\<close>
  or a request to DeepL.
\<close>

theorem zh_tw_forces_fallback:
  "\<not> deepl_eligible e (u16 ''ZH-TW'')
   \<and> (\<exists>rest. snd (smartTranslate e original (u16 ''ZH-TW'') tr) =
               tr @ Call_translateLibre (preProcessText e original) (u16 ''zh'') # rest
             \<and> \<not> list_ex is_deepl_event rest)"
proof -
  have "smartTranslate e original (u16 ''ZH-TW'') tr =
        libre_then_google e (preProcessText e original) (u16 ''zh'') tr"
    by (simp add: smartTranslate_def Let_def ZH_TW_not_eligible targetBase_ZH_TW)
  with libre_then_google_trace [of e "preProcessText e original" "u16 ''zh''" tr]
    ZH_TW_not_eligible [of e]
  show ?thesis by simp
qed

theorem zh_tw_forces_fallback_witness:
  "\<not> deepl_eligible (sample_env (Some (u16 ''secret'')) sample_net) (u16 ''ZH-TW'')
   \<and> (\<exists>rest. snd (smartTranslate (sample_env (Some (u16 ''secret'')) sample_net)
                      (u16 ''hi'') (u16 ''ZH-TW'') []) =
               Call_translateLibre (u16 ''hi'') (u16 ''zh'') # rest
             \<and> \<not> list_ex is_deepl_event rest)"
  using zh_tw_forces_fallback [of "sample_env (Some (u16 ''secret'')) sample_net" "u16 ''hi''" "[]"]
  by (simp add: hi_miss)

text \<open>
  C6. The base code is the target code up to its first hyphen, lowercased; \<open>PT-PT\<close> gives
  \<open>pt\<close>. When the primary adapter is eligible and throws, the next thing the orchestrator
  does is call \<open>translateLibre\<close> with the normalized text and that base code.
\<close>

theorem base_code_fallback:
  "targetBase e code = toLowerCase e (takeWhile (\<lambda>c. c \<noteq> 0x2D) code)
   \<and> targetBase e (u16 ''PT-PT'') = u16 ''pt''
   \<and> (deepl_eligible e code
        \<and> translateDeepL e (preProcessText e original) code tr = (Inl err, tr1)
      \<longrightarrow> (\<exists>rest. snd (smartTranslate e original code tr) =
                   tr1 @ Call_translateLibre (preProcessText e original) (targetBase e code) # rest))"
proof -
  have "\<exists>rest. snd (smartTranslate e original code tr) =
                 tr1 @ Call_translateLibre (preProcessText e original) (targetBase e code) # rest"
    if el: "deepl_eligible e code"
      and fail: "translateDeepL e (preProcessText e original) code tr = (Inl err, tr1)"
  proof -
    from el fail have "smartTranslate e original code tr =
        libre_then_google e (preProcessText e original) (targetBase e code) tr1"
      by (simp add: smartTranslate_def Let_def)
    with libre_then_google_trace [of e "preProcessText e original" "targetBase e code" tr1]
    show ?thesis by auto
  qed
  with targetBase_takeWhile [of e code] targetBase_PT_PT [of e] show ?thesis by blast
qed

theorem base_code_fallback_witness:
  "\<exists>rest. snd (smartTranslate (sample_env (Some (u16 ''secret'')) offline)
                 (u16 '' Dankie'') (u16 ''PT-PT'') []) =
     [Call_translateDeepL (u16 ''thank you'') (u16 ''PT-PT''),
      Fetch (DeepL_POST (u16 ''DeepL-Auth-Key secret'') (u16 ''thank you'') (u16 ''PT-PT''))]
     @ Call_translateLibre (u16 ''thank you'') (u16 ''pt'') # rest"
proof -
  let ?e = "sample_env (Some (u16 ''secret'')) offline"
  have auth: "authorization ?e = u16 ''DeepL-Auth-Key secret''"
    by (simp add: authorization_def sample_env_def u16_def)
  have h: "deepl_eligible ?e (u16 ''PT-PT'')
      \<and> translateDeepL ?e (u16 ''thank you'') (u16 ''PT-PT'') [] =
          (Inl (FetchError (u16 ''offline'')),
           [Call_translateDeepL (u16 ''thank you'') (u16 ''PT-PT''),
            Fetch (DeepL_POST (u16 ''DeepL-Auth-Key secret'') (u16 ''thank you'') (u16 ''PT-PT''))])"
    by (simp add: PT_PT_eligible offline_deepl deepl_events_def auth)
  note inst = base_code_fallback [of ?e "u16 ''PT-PT''" "u16 '' Dankie''" "[]"
      "FetchError (u16 ''offline'')"
      "[Call_translateDeepL (u16 ''thank you'') (u16 ''PT-PT''),
        Fetch (DeepL_POST (u16 ''DeepL-Auth-Key secret'') (u16 ''thank you'') (u16 ''PT-PT''))]",
      unfolded dankie]
  from inst h have "\<exists>rest. snd (smartTranslate ?e (u16 '' Dankie'') (u16 ''PT-PT'') []) =
      [Call_translateDeepL (u16 ''thank you'') (u16 ''PT-PT''),
       Fetch (DeepL_POST (u16 ''DeepL-Auth-Key secret'') (u16 ''thank you'') (u16 ''PT-PT''))]
      @ Call_translateLibre (u16 ''thank you'') (targetBase ?e (u16 ''PT-PT'')) # rest"
    by blast
  then show ?thesis by (simp only: targetBase_PT_PT)
qed

section \<open>The endpoint pool\<close>

text \<open>
  C4. The pool is never empty. When the endpoints before \<open>b\<close> all throw and the try at \<open>b\<close>
  returns, \<open>translateLibre\<close> returns that result, having tried exactly the endpoints up to
  \<open>b\<close>, each once and in the order of the pool, and none after it. When \<open>translateLibre\<close>
  throws, every endpoint of the pool has been tried once, in order, each try threw, and the
  error thrown is the one of the try at the last endpoint. And when every try throws,
  \<open>translateLibre\<close> does throw, with the error of the try at the last endpoint, after one
  try at each endpoint of the pool.
\<close>

theorem translateLibre_pool:
  "endpoint_list e \<noteq> []
   \<and> (endpoint_list e = pre @ b # post
        \<and> all_fail e pre text to (tr @ [Call_translateLibre text to])
        \<and> translateLibreAt e b text to (tr @ [Call_translateLibre text to] @ attempts pre text to)
            = (Inr v, tr')
      \<longrightarrow> translateLibre e text to tr = (Inr v, tr')
          \<and> tr' = tr @ [Call_translateLibre text to] @ attempts (pre @ [b]) text to)
   \<and> (translateLibre e text to tr = (Inl err, tr'')
      \<longrightarrow> all_fail e (endpoint_list e) text to (tr @ [Call_translateLibre text to])
          \<and> tr'' = tr @ [Call_translateLibre text to] @ attempts (endpoint_list e) text to
          \<and> fst (translateLibreAt e (last (endpoint_list e)) text to
                   (tr @ [Call_translateLibre text to]
                    @ attempts (butlast (endpoint_list e)) text to)) = Inl err)
   \<and> (all_fail e (endpoint_list e) text to (tr @ [Call_translateLibre text to])
      \<longrightarrow> isl (fst (translateLibre e text to tr))
          \<and> fst (translateLibre e text to tr) =
              fst (translateLibreAt e (last (endpoint_list e)) text to
                     (tr @ [Call_translateLibre text to]
                      @ attempts (butlast (endpoint_list e)) text to))
          \<and> snd (translateLibre e text to tr) =
              tr @ [Call_translateLibre text to] @ attempts (endpoint_list e) text to)"
proof (intro conjI impI)
  show "endpoint_list e \<noteq> []" by (rule endpoint_list_nonempty)
next
  assume h: "endpoint_list e = pre @ b # post
        \<and> all_fail e pre text to (tr @ [Call_translateLibre text to])
        \<and> translateLibreAt e b text to (tr @ [Call_translateLibre text to] @ attempts pre text to)
            = (Inr v, tr')"
  then have af: "all_fail e pre text to (tr @ [Call_translateLibre text to])"
    and at: "translateLibreAt e b text to ((tr @ [Call_translateLibre text to]) @ attempts pre text to)
            = (Inr v, tr')"
    and el: "endpoint_list e = pre @ b # post"
    by simp_all
  from libre_loop_first_success [OF af at, of post None] el
  show "translateLibre e text to tr = (Inr v, tr')"
    by (simp add: translateLibre_def)
  from translateLibreAt_trace [of e b "text" to "(tr @ [Call_translateLibre text to]) @ attempts pre text to"] at
  show "tr' = tr @ [Call_translateLibre text to] @ attempts (pre @ [b]) text to"
    by (simp add: attempts_append attempts_Cons attempts_Nil)
next
  assume "translateLibre e text to tr = (Inl err, tr'')"
  then have "libre_loop e (endpoint_list e) text to None (tr @ [Call_translateLibre text to])
      = (Inl err, tr'')"
    by (simp add: translateLibre_def)
  from libre_loop_Inl [OF this] endpoint_list_nonempty [of e]
  have "all_fail e (endpoint_list e) text to (tr @ [Call_translateLibre text to])
      \<and> tr'' = tr @ [Call_translateLibre text to] @ attempts (endpoint_list e) text to
      \<and> fst (translateLibreAt e (last (endpoint_list e)) text to
               (tr @ [Call_translateLibre text to]
                @ attempts (butlast (endpoint_list e)) text to)) = Inl err"
    by simp
  then show "all_fail e (endpoint_list e) text to (tr @ [Call_translateLibre text to])"
    and "tr'' = tr @ [Call_translateLibre text to] @ attempts (endpoint_list e) text to"
    and "fst (translateLibreAt e (last (endpoint_list e)) text to
               (tr @ [Call_translateLibre text to]
                @ attempts (butlast (endpoint_list e)) text to)) = Inl err"
    by simp_all
next
  assume af: "all_fail e (endpoint_list e) text to (tr @ [Call_translateLibre text to])"
  let ?last = "translateLibreAt e (last (endpoint_list e)) text to
                 ((tr @ [Call_translateLibre text to])
                  @ attempts (butlast (endpoint_list e)) text to)"
  from all_fail_last [OF af endpoint_list_nonempty] have failed: "isl (fst ?last)" .
  from libre_loop_skip [OF af endpoint_list_nonempty, of "[]" None]
  have run: "translateLibre e text to tr =
      (Inl (projl (fst ?last)),
       (tr @ [Call_translateLibre text to]) @ attempts (endpoint_list e) text to)"
    by (simp add: translateLibre_def)
  from run show "isl (fst (translateLibre e text to tr))" by simp
  from run failed show "fst (translateLibre e text to tr) =
      fst (translateLibreAt e (last (endpoint_list e)) text to
             (tr @ [Call_translateLibre text to]
              @ attempts (butlast (endpoint_list e)) text to))"
    by simp
  from run show "snd (translateLibre e text to tr) =
      tr @ [Call_translateLibre text to] @ attempts (endpoint_list e) text to"
    by simp
qed

theorem translateLibre_pool_witness:
  "translateLibre (sample_env None sample_net) (u16 ''hello'') (u16 ''pt'') [] =
     (Inr (JStr (u16 ''ola'')),
      [Call_translateLibre (u16 ''hello'') (u16 ''pt''),
       Call_translateLibreAt (u16 ''http://a/'') (u16 ''hello'') (u16 ''pt''),
       Fetch (Libre_POST (u16 ''http://a/translate'') (u16 ''hello'') (u16 ''pt'')),
       Call_translateLibreAt (u16 ''http://b'') (u16 ''hello'') (u16 ''pt''),
       Fetch (Libre_POST (u16 ''http://b/translate'') (u16 ''hello'') (u16 ''pt''))])
   \<and> all_fail (sample_env None offline) [u16 ''http://a/'', u16 ''http://b'']
        (u16 ''hello'') (u16 ''pt'') [Call_translateLibre (u16 ''hello'') (u16 ''pt'')]
   \<and> fst (translateLibreAt (sample_env None offline) (u16 ''http://b'') (u16 ''hello'') (u16 ''pt'')
            [Call_translateLibre (u16 ''hello'') (u16 ''pt''),
             Call_translateLibreAt (u16 ''http://a/'') (u16 ''hello'') (u16 ''pt''),
             Fetch (Libre_POST (u16 ''http://a/translate'') (u16 ''hello'') (u16 ''pt''))])
       = Inl (FetchError (u16 ''offline''))
   \<and> translateLibre (sample_env None offline) (u16 ''hello'') (u16 ''pt'') [] =
     (Inl (FetchError (u16 ''offline'')),
      [Call_translateLibre (u16 ''hello'') (u16 ''pt''),
       Call_translateLibreAt (u16 ''http://a/'') (u16 ''hello'') (u16 ''pt''),
       Fetch (Libre_POST (u16 ''http://a/translate'') (u16 ''hello'') (u16 ''pt'')),
       Call_translateLibreAt (u16 ''http://b'') (u16 ''hello'') (u16 ''pt''),
       Fetch (Libre_POST (u16 ''http://b/translate'') (u16 ''hello'') (u16 ''pt''))])"
proof -
  let ?e = "sample_env None sample_net" and ?o = "sample_env None offline"
  let ?t = "u16 ''hello''" and ?to = "u16 ''pt''"
  let ?a = "u16 ''http://a/''" and ?b = "u16 ''http://b''"
  have slash: "strip_slashes ?a @ u16 ''/translate'' = u16 ''http://a/translate''"
    "strip_slashes ?b @ u16 ''/translate'' = u16 ''http://b/translate''"
    by (simp_all add: strip_slashes_def u16_def)
  have first: "endpoint_list ?e = [?a] @ ?b # []
      \<and> all_fail ?e [?a] ?t ?to ([] @ [Call_translateLibre ?t ?to])
      \<and> translateLibreAt ?e ?b ?t ?to ([] @ [Call_translateLibre ?t ?to] @ attempts [?a] ?t ?to)
          = (Inr (JStr (u16 ''ola'')),
             [Call_translateLibre ?t ?to] @ attempts [?a] ?t ?to @ attempt_events ?b ?t ?to)"
    by (simp add: endpoint_list_sample sample_a_fails sample_b_answers)
  have second: "translateLibre ?o ?t ?to [] =
      (Inl (FetchError (u16 ''offline'')),
       [] @ [Call_translateLibre ?t ?to] @ attempts [?a, ?b] ?t ?to)"
    by (simp only: offline_libre)
  from translateLibre_pool [of ?e "[?a]" ?b "[]" ?t ?to "[]" "JStr (u16 ''ola'')"
      "[Call_translateLibre ?t ?to] @ attempts [?a] ?t ?to @ attempt_events ?b ?t ?to"
      "FetchError (u16 ''offline'')" "[]"] first
  have one: "translateLibre ?e ?t ?to [] =
      (Inr (JStr (u16 ''ola'')),
       [Call_translateLibre ?t ?to] @ attempts [?a] ?t ?to @ attempt_events ?b ?t ?to)"
    by blast
  from translateLibre_pool [of ?o "[]" ?a "[?b]" ?t ?to "[]" "JNull" "[]"
      "FetchError (u16 ''offline'')" "[] @ [Call_translateLibre ?t ?to] @ attempts [?a, ?b] ?t ?to"]
    second
  have two: "all_fail ?o (endpoint_list ?o) ?t ?to ([] @ [Call_translateLibre ?t ?to])
      \<and> fst (translateLibreAt ?o (last (endpoint_list ?o)) ?t ?to
               ([] @ [Call_translateLibre ?t ?to] @ attempts (butlast (endpoint_list ?o)) ?t ?to))
          = Inl (FetchError (u16 ''offline''))"
    by blast
  have af: "all_fail ?o (endpoint_list ?o) ?t ?to ([] @ [Call_translateLibre ?t ?to])"
    by (simp add: endpoint_list_sample offline_fails)
  from translateLibre_pool [of ?o "[]" ?a "[?b]" ?t ?to "[]" "JNull" "[]"
      "FetchError (u16 ''offline'')" "[]"] af
  have three: "fst (translateLibre ?o ?t ?to []) =
        fst (translateLibreAt ?o (last (endpoint_list ?o)) ?t ?to
               ([] @ [Call_translateLibre ?t ?to] @ attempts (butlast (endpoint_list ?o)) ?t ?to))
      \<and> snd (translateLibre ?o ?t ?to []) =
        [] @ [Call_translateLibre ?t ?to] @ attempts (endpoint_list ?o) ?t ?to"
    by blast
  then have "translateLibre ?o ?t ?to [] =
      (Inl (FetchError (u16 ''offline'')),
       [Call_translateLibre ?t ?to] @ attempts [?a, ?b] ?t ?to)"
    by (simp add: prod_eq_iff endpoint_list_sample offline_fails)
  with one two show ?thesis
    by (simp add: endpoint_list_sample attempts_Cons attempts_Nil attempt_events_def
        libre_request_def slash)
qed

section \<open>Extraction in the last resort\<close>

lemma mixed_chunks:
  "chunks_of mixed_segments =
     [JStr (u16 ''Guten''), JNum (u16 ''5''), JBool True,
      JArr [JNum (u16 ''1''), JNull, JStr (u16 ''x'')], JObj [], JStr (u16 ''Tag'')]"
  by (simp add: chunks_of_def mixed_segments_def List.map_filter_simps u16_def)

lemma wf_de_day: "well_formed (u16 ''de'')" "well_formed (u16 ''Good day'')"
  by (simp_all add: u16_def is_high_def is_low_def)

text \<open>
  C8, as amended. When the answer is an array whose first element is an array of
  segments, the chunks are the first elements of the segments without the missing and the
  falsy ones (for segments that are arrays: the truthy heads of the non-empty ones). Each
  chunk is converted to a string: a string is itself, a number its text, a boolean its
  name, an array its elements joined by commas, an object \<open>[object Object]\<close>; the adapter
  returns the conversions joined by one space, unless that join is the empty string, and
  then the input text, as it does when no chunk is left. When the chunks are the strings
  \<open>ss\<close>, the result is these strings joined by one space, and the input text when there are
  none. An object that owns a property \<open>toString\<close> cannot be converted and the adapter
  throws. The claim as stated fails on the answer whose only segment starts with an empty
  array: the empty array survives the filter, is converted to the empty string, and the
  adapter returns the input text and not the join.
\<close>

theorem google_extraction:
  "chunks_of (map JArr rows) = filter truthy (map hd (filter (\<lambda>r. r \<noteq> []) rows))
   \<and> (well_formed to \<and> well_formed text
        \<and> success_json (fetch e (tr @ [Call_translateGooglePublic text to]) (Google_GET to text))
            (JArr (JArr segs # others))
      \<longrightarrow> translateGooglePublic e text to tr =
            (case those (map to_string (chunks_of segs)) of
               None \<Rightarrow> Inl TypeError
             | Some strs \<Rightarrow>
                 Inr (JStr (if join (u16 '' '') strs = [] then text else join (u16 '' '') strs)),
             tr @ [Call_translateGooglePublic text to, Fetch (Google_GET to text)])
          \<and> (chunks_of segs = map JStr ss
             \<longrightarrow> translateGooglePublic e text to tr =
                   (Inr (JStr (if ss = [] then text else join (u16 '' '') ss)),
                    tr @ [Call_translateGooglePublic text to, Fetch (Google_GET to text)])))
   \<and> to_string (JStr s) = Some s
   \<and> to_string (JNum n) = Some n
   \<and> to_string (JBool b) = Some (if b then u16 ''true'' else u16 ''false'')
   \<and> to_string (JArr xs) =
       map_option (join (u16 '',''))
         (those (map (\<lambda>x. if x = JNull then Some [] else to_string x) xs))
   \<and> to_string (JObj kvs) =
       (if map_of kvs (u16 ''toString'') = None then Some (u16 ''[object Object]'') else None)"
proof -
  have run: "translateGooglePublic e text to tr =
            (case those (map to_string (chunks_of segs)) of
               None \<Rightarrow> Inl TypeError
             | Some strs \<Rightarrow>
                 Inr (JStr (if join (u16 '' '') strs = [] then text else join (u16 '' '') strs)),
             tr @ [Call_translateGooglePublic text to, Fetch (Google_GET to text)])"
    if h: "well_formed to \<and> well_formed text
        \<and> success_json (fetch e (tr @ [Call_translateGooglePublic text to]) (Google_GET to text))
            (JArr (JArr segs # others))"
  proof -
    have first: "or_else (index0 (Some (JArr (JArr segs # others)))) (JArr []) = JArr segs"
      by (simp add: or_else_def)
    from h translateGooglePublic_success [OF _ _ _ first, of to "text" e tr]
    have "translateGooglePublic e text to tr =
           (case join_js (u16 '' '') (chunks_of segs) of
              None \<Rightarrow> Inl TypeError
            | Some joined \<Rightarrow> Inr (JStr (or_str joined text)),
            tr @ [Call_translateGooglePublic text to, Fetch (Google_GET to text)])"
      by blast
    then show ?thesis
      by (simp add: join_js_chunks or_str_def split: option.splits)
  qed
  have strings: "translateGooglePublic e text to tr =
                   (Inr (JStr (if ss = [] then text else join (u16 '' '') ss)),
                    tr @ [Call_translateGooglePublic text to, Fetch (Google_GET to text)])"
    if h: "well_formed to \<and> well_formed text
        \<and> success_json (fetch e (tr @ [Call_translateGooglePublic text to]) (Google_GET to text))
            (JArr (JArr segs # others))"
      and ch: "chunks_of segs = map JStr ss"
  proof -
    from ch have "filter truthy (List.map_filter (\<lambda>seg. index0 (Some seg)) segs) = map JStr ss"
      by (simp add: chunks_of_def)
    from truthy_strings [OF this] have ne: "\<forall>s \<in> set ss. s \<noteq> []" .
    have "ss \<noteq> [] \<Longrightarrow> join (u16 '' '') ss \<noteq> []"
      using join_nonempty [OF ne] by blast
    with run [OF h] ch show ?thesis
      by (cases "ss = []") (simp_all add: those_strings)
  qed
  from run strings chunks_of_rows [of rows] show ?thesis by simp
qed

theorem google_extraction_counterexample:
  "chunks_of [JArr [JArr []]] = [JArr []]
   \<and> to_string (JArr []) = Some []
   \<and> translateGooglePublic (sample_env None (google_only (JArr [JArr [JArr [JArr []]]])))
       (u16 ''hi'') (u16 ''fr'') [] =
     (Inr (JStr (u16 ''hi'')),
      [Call_translateGooglePublic (u16 ''hi'') (u16 ''fr''),
       Fetch (Google_GET (u16 ''fr'') (u16 ''hi''))])"
  by (simp add: translateGooglePublic_def wf_hi_fr fetch_google_only json_response_def ok_def
      or_else_def chunks_of_def List.map_filter_simps join_js_def join_elem_def or_str_def
      Let_def)

theorem google_extraction_witness:
  "translateGooglePublic (sample_env None (google_only mixed_answer))
     (u16 ''Good day'') (u16 ''de'') [] =
     (Inr (JStr (u16 ''Guten 5 true 1,,x [object Object] Tag'')),
      [Call_translateGooglePublic (u16 ''Good day'') (u16 ''de''),
       Fetch (Google_GET (u16 ''de'') (u16 ''Good day''))])
   \<and> translateGooglePublic (sample_env None (google_only toString_answer))
       (u16 ''Good day'') (u16 ''de'') [] =
     (Inl TypeError,
      [Call_translateGooglePublic (u16 ''Good day'') (u16 ''de''),
       Fetch (Google_GET (u16 ''de'') (u16 ''Good day''))])
   \<and> translateGooglePublic (sample_env None sample_net) (u16 ''Good day'') (u16 ''de'') [] =
     (Inr (JStr (u16 ''Guten Tag'')),
      [Call_translateGooglePublic (u16 ''Good day'') (u16 ''de''),
       Fetch (Google_GET (u16 ''de'') (u16 ''Good day''))])"
proof -
  let ?day = "u16 ''Good day''" and ?de = "u16 ''de''"
  let ?m = "sample_env None (google_only mixed_answer)"
  let ?t = "sample_env None (google_only toString_answer)"
  let ?s = "sample_env None sample_net"
  let ?segs = "[JArr [JStr (u16 ''Guten''), JStr (u16 ''good'')], JArr [],
                JArr [JStr []], JArr [JStr (u16 ''Tag'')]]"
  have hm: "well_formed ?de \<and> well_formed ?day
      \<and> success_json (fetch ?m ([] @ [Call_translateGooglePublic ?day ?de]) (Google_GET ?de ?day))
          (JArr (JArr mixed_segments # [JNull, JStr (u16 ''en'')]))"
    by (simp add: wf_de_day fetch_google_only success_fixed mixed_answer_def)
  have ht: "well_formed ?de \<and> well_formed ?day
      \<and> success_json (fetch ?t ([] @ [Call_translateGooglePublic ?day ?de]) (Google_GET ?de ?day))
          (JArr (JArr [JArr [JObj [(u16 ''toString'', JStr (u16 ''x''))]]] # []))"
    by (simp add: wf_de_day fetch_google_only success_fixed toString_answer_def)
  have hs: "well_formed ?de \<and> well_formed ?day
      \<and> success_json (fetch ?s ([] @ [Call_translateGooglePublic ?day ?de]) (Google_GET ?de ?day))
          (JArr (JArr ?segs # [JNull, JStr (u16 ''en'')]))"
    using wf_de_day sample_google_json by simp
  from hm google_extraction [of "[]" ?de ?day ?m "[]" mixed_segments "[JNull, JStr (u16 ''en'')]" "[]"]
  have one: "translateGooglePublic ?m ?day ?de [] =
      (case those (map to_string (chunks_of mixed_segments)) of
         None \<Rightarrow> Inl TypeError
       | Some strs \<Rightarrow>
           Inr (JStr (if join (u16 '' '') strs = [] then ?day else join (u16 '' '') strs)),
       [] @ [Call_translateGooglePublic ?day ?de, Fetch (Google_GET ?de ?day)])"
    by blast
  from ht google_extraction [of "[]" ?de ?day ?t "[]"
      "[JArr [JObj [(u16 ''toString'', JStr (u16 ''x''))]]]" "[]" "[]"]
  have two: "translateGooglePublic ?t ?day ?de [] =
      (case those (map to_string
                     (chunks_of [JArr [JObj [(u16 ''toString'', JStr (u16 ''x''))]]])) of
         None \<Rightarrow> Inl TypeError
       | Some strs \<Rightarrow>
           Inr (JStr (if join (u16 '' '') strs = [] then ?day else join (u16 '' '') strs)),
       [] @ [Call_translateGooglePublic ?day ?de, Fetch (Google_GET ?de ?day)])"
    by blast
  from hs sample_chunks
    google_extraction [of "[]" ?de ?day ?s "[]" ?segs "[JNull, JStr (u16 ''en'')]"
      "[u16 ''Guten'', u16 ''Tag'']"]
  have three: "translateGooglePublic ?s ?day ?de [] =
      (Inr (JStr (if [u16 ''Guten'', u16 ''Tag''] = [] then ?day
                  else join (u16 '' '') [u16 ''Guten'', u16 ''Tag''])),
       [] @ [Call_translateGooglePublic ?day ?de, Fetch (Google_GET ?de ?day)])"
    by blast
  have r1: "those (map to_string (chunks_of mixed_segments)) =
      Some [u16 ''Guten'', u16 ''5'', u16 ''true'', u16 ''1,,x'', u16 ''[object Object]'',
            u16 ''Tag'']"
    by (simp add: mixed_chunks u16_def)
  have r2: "those (map to_string
                     (chunks_of [JArr [JObj [(u16 ''toString'', JStr (u16 ''x''))]]])) = None"
    by (simp add: chunks_of_def List.map_filter_simps u16_def)
  from one two three show ?thesis
    by (simp add: r1 r2) (simp add: u16_def)
qed

end
